theory Spec2Isabelle
  imports Main "HOL-Library.Multiset"
begin

section \<open>The card game with a fight-style choice (the unnamed source file)\<close>

text \<open>
  The repository holds two variants of the game, both \<^verbatim>\<open>package main\<close>: the file
  \<^verbatim>\<open>main.go\<close> and a longer, unnamed file that adds the fight-style choice, the
  avoid-room move, the one-potion-per-turn flag and the score. This section embeds the
  longer file; section two embeds what the claims need of \<^verbatim>\<open>main.go\<close>, with
  the suffix \<open>0\<close> on every name.

  Printing (\<^verbatim>\<open>fmt.Println\<close>) is not modelled. A slice expression out of range
  panics in Go; the panic is the value \<open>Inl SliceBoundsOutOfRange\<close>.
\<close>

subsection \<open>Go's int\<close>

text \<open>
  Go's \<^verbatim>\<open>int\<close> is taken as 64 bits wide, and its addition and subtraction wrap
  around. A field of type \<^verbatim>\<open>int\<close> is an \<open>int\<close> here (a state of the program holds
  numbers of the range only), and \<open>addInt\<close> and \<open>subInt\<close> are \<^verbatim>\<open>+\<close> and \<^verbatim>\<open>-\<close>
  of the source on health, card values and the score: the exact sum or difference,
  brought back into the range from \<open>- 2 ^ 63\<close> to \<open>2 ^ 63 - 1\<close>. The source also
  computes \<^verbatim>\<open>m.cardsChosen++\<close> under the guard \<^verbatim>\<open>m.cardsChosen < 3\<close>,
  \<^verbatim>\<open>index+1\<close> in a slice expression that panics unless \<^verbatim>\<open>index < len(m.room)\<close>,
  and \<^verbatim>\<open>4-len(m.room)\<close> and \<^verbatim>\<open>len(m.discardPile)-1\<close> on lengths; none of these
  can leave the range, so they are written with \<open>+\<close> and \<open>-\<close>.
\<close>

definition fitsInt :: "int \<Rightarrow> bool" where
  "fitsInt x \<longleftrightarrow> - (2 ^ 63) \<le> x \<and> x < 2 ^ 63"

definition wrapInt :: "int \<Rightarrow> int" where
  "wrapInt x = (x + 2 ^ 63) mod 2 ^ 64 - 2 ^ 63"

definition addInt :: "int \<Rightarrow> int \<Rightarrow> int" where
  "addInt a b = wrapInt (a + b)"

definition subInt :: "int \<Rightarrow> int \<Rightarrow> int" where
  "subInt a b = wrapInt (a - b)"

subsection \<open>Data\<close>

record Card =
  Suit :: string
  Value :: int
  Type :: string
  MonsterValue :: int

text \<open>The zero value \<^verbatim>\<open>Card{}\<close>, which the code uses for "no weapon equipped".\<close>

definition emptyCard :: Card where
  "emptyCard = \<lparr>Suit = [], Value = 0, Type = [], MonsterValue = 0\<rparr>"

record model =
  health :: int
  dungeon :: "Card list"
  room :: "Card list"
  equippedWeapon :: Card
  discardPile :: "Card list"
  selectedCard :: int
  cardsChosen :: int
  weaponLimit :: int
  choosingFight :: bool
  fightingBarehanded :: bool
  avoidedLastRoom :: bool
  potionUsedThisTurn :: bool

datatype error = SliceBoundsOutOfRange

datatype Msg = KeyMsg string | OtherMsg

datatype Cmd = NoCmd | Quit

subsection \<open>Slices\<close>

text \<open>
  \<^verbatim>\<open>append(s[:index], s[index+1:]...)\<close>. \<^verbatim>\<open>s[:index]\<close> panics when
  \<open>index < 0\<close> or \<open>index > cap(s)\<close>, and \<^verbatim>\<open>s[index+1:]\<close> panics when
  \<open>index + 1 > len(s)\<close>; since \<open>len(s) \<le> cap(s)\<close> the expression panics exactly
  when \<open>index < 0\<close> or \<open>index + 1 > len(s)\<close>. No other slice shares the room's array,
  so the in-place shift is the list without its element at \<open>index\<close>.
\<close>

definition removeAt :: "int \<Rightarrow> 'a list \<Rightarrow> error + 'a list" where
  "removeAt index s =
     (if 0 \<le> index \<and> index + 1 \<le> int (length s)
      then Inr (take (nat index) s @ drop (nat (index + 1)) s)
      else Inl SliceBoundsOutOfRange)"

subsection \<open>createDeck and initialModel\<close>

definition createDeck :: "Card list" where
  "createDeck =
     concat (map (\<lambda>suit. map (\<lambda>i. \<lparr>Suit = [''Club'', ''Spade''] ! suit, Value = i,
                                   Type = ''Monster'', MonsterValue = 0\<rparr>) [2..14])
                 [0 ..< length [''Club'', ''Spade'']])
     @ map (\<lambda>i. \<lparr>Suit = ''Diamond'', Value = i, Type = ''Weapon'', MonsterValue = 0\<rparr>) [2..10]
     @ map (\<lambda>i. \<lparr>Suit = ''Heart'', Value = i, Type = ''Potion'', MonsterValue = 0\<rparr>) [2..10]"

text \<open>
  The loop of \<^verbatim>\<open>dealRoom\<close>: while the room holds fewer than 4 cards, move the
  front card of the dungeon to the back of the room; stop when the dungeon is empty.
  The result is the pair (room, dungeon).
\<close>

fun dealLoop :: "Card list \<Rightarrow> Card list \<Rightarrow> Card list \<times> Card list" where
  "dealLoop rm [] = (rm, [])"
| "dealLoop rm (c # dg) =
     (if length rm < 4 then dealLoop (rm @ [c]) dg else (rm, c # dg))"

definition dealRoom :: "model \<Rightarrow> model" where
  "dealRoom m =
     (let m1 = m\<lparr>avoidedLastRoom := False, potionUsedThisTurn := False\<rparr>;
          (rm, dg) = dealLoop (room m1) (dungeon m1)
      in m1\<lparr>dungeon := dg, room := rm, cardsChosen := 0, selectedCard := -1\<rparr>)"

text \<open>
  \<^verbatim>\<open>initialModel\<close> shuffles the deck with the process-wide random source. The
  outcome of the shuffle is the parameter \<open>deck\<close>, a permutation of \<open>createDeck\<close>.
\<close>

definition initialModel :: "Card list \<Rightarrow> model" where
  "initialModel deck =
     dealRoom \<lparr>health = 20, dungeon = deck, room = [], equippedWeapon = emptyCard,
               discardPile = [], selectedCard = -1, cardsChosen = 0, weaponLimit = 14,
               choosingFight = False, fightingBarehanded = False,
               avoidedLastRoom = False, potionUsedThisTurn = False\<rparr>"

subsection \<open>calculateScore\<close>

definition calculateScore :: "model \<Rightarrow> int" where
  "calculateScore m =
     (if health m \<le> 0
      then foldl (\<lambda>score c. if Type c = ''Monster'' then subInt score (Value c) else score)
             (health m) (dungeon m)
      else (let score = health m
            in if health m = 20 \<and> length (discardPile m) > 0
                  \<and> Type (discardPile m ! (length (discardPile m) - 1)) = ''Potion''
               then addInt score (Value (discardPile m ! (length (discardPile m) - 1)))
               else score))"

subsection \<open>Card actions\<close>

definition discard :: "Card \<Rightarrow> model \<Rightarrow> model" where
  "discard c m = m\<lparr>discardPile := discardPile m @ [c]\<rparr>"

definition equipWeapon :: "Card \<Rightarrow> model \<Rightarrow> model" where
  "equipWeapon c m =
     (let m1 = (if equippedWeapon m \<noteq> emptyCard then discard (equippedWeapon m) m else m);
          m2 = m1\<lparr>equippedWeapon := c\<rparr>
      in m2\<lparr>equippedWeapon := (equippedWeapon m2)\<lparr>MonsterValue := 0\<rparr>\<rparr>)"

text \<open>
  \<^verbatim>\<open>usePotion\<close> uses a variable \<^verbatim>\<open>index\<close> that it does not declare. Its only
  caller, \<^verbatim>\<open>selectCard\<close>, has the index of the chosen card under that name (and in
  \<^verbatim>\<open>m.selectedCard\<close>), so the index is a parameter here.
\<close>

definition usePotion :: "int \<Rightarrow> Card \<Rightarrow> model \<Rightarrow> error + model" where
  "usePotion index c m =
     (if \<not> potionUsedThisTurn m then
        (let m1 = m\<lparr>health := addInt (health m) (Value c)\<rparr>;
             m2 = (if health m1 > 20 then m1\<lparr>health := 20\<rparr> else m1);
             m3 = discard c m2;
             m4 = m3\<lparr>potionUsedThisTurn := True\<rparr>
         in case removeAt index (room m4) of
              Inl e \<Rightarrow> Inl e
            | Inr rm \<Rightarrow>
                (let m5 = m4\<lparr>room := rm\<rparr>
                 in Inr (if 4 - int (length (room m5)) = 3 then dealRoom m5 else m5)))
      else Inr (discard c m))"

definition fightMonster :: "Card \<Rightarrow> model \<Rightarrow> model" where
  "fightMonster c m = m\<lparr>choosingFight := True\<rparr>"

definition finishFight :: "model \<Rightarrow> error + model" where
  "finishFight m =
     (if selectedCard m < 0 \<or> selectedCard m \<ge> int (length (room m))
      then Inr (m\<lparr>choosingFight := False\<rparr>)
      else
        (let c = room m ! nat (selectedCard m);
             m1 = (if fightingBarehanded m then m\<lparr>health := subInt (health m) (Value c)\<rparr>
                   else if equippedWeapon m = emptyCard
                     then m\<lparr>health := subInt (health m) (Value c)\<rparr>
                   else if Value c > weaponLimit m
                     then m\<lparr>health := subInt (health m) (Value c)\<rparr>
                   else (let damage = subInt (Value c) (Value (equippedWeapon m))
                         in if damage > 0 then m\<lparr>health := subInt (health m) damage\<rparr>
                            else m));
             m2 = (if \<not> fightingBarehanded m1 \<and> equippedWeapon m1 \<noteq> emptyCard
                      \<and> Value c \<le> weaponLimit m1
                   then m1\<lparr>weaponLimit := Value c,
                           equippedWeapon := (equippedWeapon m1)\<lparr>MonsterValue := Value c\<rparr>\<rparr>
                   else m1);
             m3 = discard c m2
         in case removeAt (selectedCard m3) (room m3) of
              Inl e \<Rightarrow> Inl e
            | Inr rm \<Rightarrow>
                (let m4 = m3\<lparr>room := rm, selectedCard := -1, choosingFight := False\<rparr>
                 in Inr (if 4 - int (length (room m4)) = 3 then dealRoom m4 else m4))))"

definition selectCard :: "int \<Rightarrow> model \<Rightarrow> error + model" where
  "selectCard index m =
     (if index \<ge> 0 \<and> index < int (length (room m)) \<and> cardsChosen m < 3 then
        (let c = room m ! nat index;
             m1 = m\<lparr>selectedCard := index, cardsChosen := cardsChosen m + 1\<rparr>
         in if Type c = ''Weapon'' then
              (let m2 = equipWeapon c m1
               in case removeAt index (room m2) of
                    Inl e \<Rightarrow> Inl e
                  | Inr rm \<Rightarrow> Inr (m2\<lparr>room := rm\<rparr>))
            else if Type c = ''Potion'' then
              (case usePotion index c m1 of
                 Inl e \<Rightarrow> Inl e
               | Inr m2 \<Rightarrow>
                   (case removeAt index (room m2) of
                      Inl e \<Rightarrow> Inl e
                    | Inr rm \<Rightarrow> Inr (m2\<lparr>room := rm\<rparr>)))
            else if Type c = ''Monster'' then
              Inr ((fightMonster c (m1\<lparr>selectedCard := index\<rparr>))\<lparr>choosingFight := True\<rparr>)
            else Inr m1)
      else Inr m)"

subsection \<open>Update\<close>

text \<open>
  The key \<^verbatim>\<open>r\<close> calls \<^verbatim>\<open>initialModel\<close>, which shuffles: \<open>deck\<close> is the outcome
  of that shuffle. The key \<^verbatim>\<open>t\<close> toggles the global \<^verbatim>\<open>debugMode\<close>, which only
  the view reads and which is no part of the model. The loop of the key \<^verbatim>\<open>a\<close>
  appends the room's cards to the dungeon one by one.
\<close>

definition withCmd :: "error + model \<Rightarrow> error + (model \<times> Cmd)" where
  "withCmd r = (case r of Inl e \<Rightarrow> Inl e | Inr m \<Rightarrow> Inr (m, NoCmd))"

definition Update :: "Msg \<Rightarrow> Card list \<Rightarrow> model \<Rightarrow> error + (model \<times> Cmd)" where
  "Update msg deck m =
     (case msg of
        OtherMsg \<Rightarrow> Inr (m, NoCmd)
      | KeyMsg k \<Rightarrow>
          if k = ''ctrl+c'' then Inr (m, Quit)
          else if k = ''a'' then
            (if \<not> avoidedLastRoom m then
               (let m1 = m\<lparr>dungeon := foldl (\<lambda>dg c. dg @ [c]) (dungeon m) (room m)\<rparr>;
                    m2 = m1\<lparr>room := []\<rparr>;
                    m3 = dealRoom m2
                in Inr (m3\<lparr>avoidedLastRoom := True\<rparr>, NoCmd))
             else Inr (m, NoCmd))
          else if k = ''d'' then Inr (dealRoom m, NoCmd)
          else if k = ''1'' then withCmd (selectCard 0 m)
          else if k = ''2'' then withCmd (selectCard 1 m)
          else if k = ''3'' then withCmd (selectCard 2 m)
          else if k = ''4'' then withCmd (selectCard 3 m)
          else if k = ''b'' then
            (if choosingFight m
             then withCmd (finishFight (m\<lparr>fightingBarehanded := True\<rparr>))
             else Inr (m, NoCmd))
          else if k = ''w'' then
            (if choosingFight m
             then withCmd (finishFight (m\<lparr>fightingBarehanded := False\<rparr>))
             else Inr (m, NoCmd))
          else if k = ''r'' then
            (if health m \<le> 0 then Inr (initialModel deck, NoCmd) else Inr (m, NoCmd))
          else if k = ''t'' then Inr (m, NoCmd)
          else Inr (m, NoCmd))"

text \<open>
  The states of a run: the initial model of some shuffle, and whatever \<open>Update\<close>
  returns from a state of a run (a panic ends the run).
\<close>

inductive reachable :: "model \<Rightarrow> bool" where
  reachable_init: "mset deck = mset createDeck \<Longrightarrow> reachable (initialModel deck)"
| reachable_step: "reachable m \<Longrightarrow> mset deck = mset createDeck
     \<Longrightarrow> Update msg deck m = Inr (m', c) \<Longrightarrow> reachable m'"

text \<open>A sequence of messages, each handled by \<open>Update\<close>; a panic ends the run.\<close>

fun run :: "Msg list \<Rightarrow> Card list \<Rightarrow> model \<Rightarrow> error + model" where
  "run [] deck m = Inr m"
| "run (msg # msgs) deck m =
     (case Update msg deck m of Inl e \<Rightarrow> Inl e | Inr (m', cmd) \<Rightarrow> run msgs deck m')"

text \<open>The number of cards in the four zones: dungeon, room, discard pile, weapon slot.\<close>

definition zoneCount :: "model \<Rightarrow> nat" where
  "zoneCount m =
     length (dungeon m) + length (room m) + length (discardPile m)
       + (if equippedWeapon m \<noteq> emptyCard then 1 else 0)"

text \<open>
  What every state of a run satisfies. Every card in play has a value from 0 to 14 (the
  empty weapon slot has 0). The values of the cards of room and dungeon add up to at most
  316, the sum over the deck. Health is at most 20, and it is at least that sum minus 296:
  health only falls in a fight, and by no more than the value of the monster, which leaves
  the room.
\<close>

definition okValue :: "Card \<Rightarrow> bool" where
  "okValue c \<longleftrightarrow> 0 \<le> Value c \<and> Value c \<le> 14"

definition cardSum :: "Card list \<Rightarrow> int" where
  "cardSum cs = sum_list (map Value cs)"

definition healthInv :: "model \<Rightarrow> bool" where
  "healthInv m \<longleftrightarrow>
     health m \<le> 20
     \<and> list_all okValue (room m @ dungeon m @ discardPile m)
     \<and> okValue (equippedWeapon m)
     \<and> cardSum (room m @ dungeon m) \<le> 316
     \<and> - 296 \<le> health m - cardSum (room m @ dungeon m)"

text \<open>
  The numbers of a fight and of the score, computed without wrap-around, fit Go's
  \<^verbatim>\<open>int\<close>: the subtractions of \<^verbatim>\<open>finishFight\<close> on the selected card, and the
  results of \<^verbatim>\<open>calculateScore\<close>.
\<close>

definition fightFits :: "model \<Rightarrow> bool" where
  "fightFits m \<longleftrightarrow>
     (let c = room m ! nat (selectedCard m)
      in fitsInt (health m - Value c)
         \<and> fitsInt (Value c - Value (equippedWeapon m))
         \<and> fitsInt (health m - max 0 (Value c - Value (equippedWeapon m))))"

definition scoreFits :: "model \<Rightarrow> bool" where
  "scoreFits m \<longleftrightarrow>
     fitsInt (health m)
     \<and> fitsInt (health m
          - sum_list (map Value (filter (\<lambda>c. Type c = ''Monster'') (dungeon m))))
     \<and> list_all (\<lambda>c. fitsInt (health m + Value c)) (discardPile m)"

section \<open>The game without a fight-style choice (main.go)\<close>

text \<open>
  \<^verbatim>\<open>main.go\<close> declares the same names; here each carries the suffix \<open>0\<close>. Its
  card has no \<^verbatim>\<open>MonsterValue\<close>, its model has no flags, its \<^verbatim>\<open>dealRoom\<close> clears
  the room first and counts four rounds, and its \<^verbatim>\<open>selectCard\<close> fights at once.
  Its arithmetic on health wraps around in the same way.
\<close>

record Card0 =
  Suit0 :: string
  Value0 :: int
  Type0 :: string

definition emptyCard0 :: Card0 where
  "emptyCard0 = \<lparr>Suit0 = [], Value0 = 0, Type0 = []\<rparr>"

record model0 =
  health0 :: int
  dungeon0 :: "Card0 list"
  room0 :: "Card0 list"
  equippedWeapon0 :: Card0
  discardPile0 :: "Card0 list"
  selectedCard0 :: int
  cardsChosen0 :: int
  weaponLimit0 :: int

definition createDeck0 :: "Card0 list" where
  "createDeck0 =
     concat (map (\<lambda>suit. map (\<lambda>i. \<lparr>Suit0 = [''Club'', ''Spade''] ! suit, Value0 = i,
                                   Type0 = ''Monster''\<rparr>) [2..14])
                 [0 ..< length [''Club'', ''Spade'']])
     @ map (\<lambda>i. \<lparr>Suit0 = ''Diamond'', Value0 = i, Type0 = ''Weapon''\<rparr>) [2..10]
     @ map (\<lambda>i. \<lparr>Suit0 = ''Heart'', Value0 = i, Type0 = ''Potion''\<rparr>) [2..10]"

text \<open>The loop \<^verbatim>\<open>for i := 0; i < 4; i++\<close> of \<^verbatim>\<open>dealRoom\<close>, from round \<open>i\<close> on.\<close>

fun dealLoop0 :: "int \<Rightarrow> Card0 list \<Rightarrow> Card0 list \<Rightarrow> Card0 list \<times> Card0 list" where
  "dealLoop0 i rm [] = (rm, [])"
| "dealLoop0 i rm (c # dg) =
     (if i < 4 then dealLoop0 (i + 1) (rm @ [c]) dg else (rm, c # dg))"

definition dealRoom0 :: "model0 \<Rightarrow> model0" where
  "dealRoom0 m =
     (let m1 = m\<lparr>room0 := []\<rparr>;
          (rm, dg) = dealLoop0 0 (room0 m1) (dungeon0 m1)
      in m1\<lparr>dungeon0 := dg, room0 := rm, cardsChosen0 := 0, selectedCard0 := -1\<rparr>)"

definition initialModel0 :: "Card0 list \<Rightarrow> model0" where
  "initialModel0 deck =
     dealRoom0 \<lparr>health0 = 20, dungeon0 = deck, room0 = [], equippedWeapon0 = emptyCard0,
                discardPile0 = [], selectedCard0 = -1, cardsChosen0 = 0, weaponLimit0 = 14\<rparr>"

definition discard0 :: "Card0 \<Rightarrow> model0 \<Rightarrow> model0" where
  "discard0 c m = m\<lparr>discardPile0 := discardPile0 m @ [c]\<rparr>"

definition equipWeapon0 :: "Card0 \<Rightarrow> model0 \<Rightarrow> model0" where
  "equipWeapon0 c m =
     (let m1 = (if equippedWeapon0 m \<noteq> emptyCard0 then discard0 (equippedWeapon0 m) m else m)
      in m1\<lparr>equippedWeapon0 := c\<rparr>)"

definition usePotion0 :: "Card0 \<Rightarrow> model0 \<Rightarrow> model0" where
  "usePotion0 c m =
     (let m1 = m\<lparr>health0 := addInt (health0 m) (Value0 c)\<rparr>;
          m2 = (if health0 m1 > 20 then m1\<lparr>health0 := 20\<rparr> else m1)
      in discard0 c m2)"

definition fightMonster0 :: "Card0 \<Rightarrow> model0 \<Rightarrow> model0" where
  "fightMonster0 c m =
     (let m1 = (if equippedWeapon0 m = emptyCard0
                then m\<lparr>health0 := subInt (health0 m) (Value0 c)\<rparr>
                else (let damage = subInt (Value0 c) (Value0 (equippedWeapon0 m));
                          m' = (if damage > 0 then m\<lparr>health0 := subInt (health0 m) damage\<rparr>
                                else m)
                      in m'\<lparr>weaponLimit0 := Value0 c\<rparr>))
      in discard0 c m1)"

definition selectCard0 :: "int \<Rightarrow> model0 \<Rightarrow> error + model0" where
  "selectCard0 index m =
     (if index \<ge> 0 \<and> index < int (length (room0 m)) \<and> cardsChosen0 m < 3 then
        (let c = room0 m ! nat index;
             m1 = m\<lparr>selectedCard0 := index, cardsChosen0 := cardsChosen0 m + 1\<rparr>;
             m2 = (if Type0 c = ''Weapon'' then equipWeapon0 c m1
                   else if Type0 c = ''Potion'' then usePotion0 c m1
                   else if Type0 c = ''Monster'' then fightMonster0 c m1
                   else m1)
         in case removeAt index (room0 m2) of
              Inl e \<Rightarrow> Inl e
            | Inr rm \<Rightarrow>
                (let m3 = m2\<lparr>room0 := rm\<rparr>
                 in if cardsChosen0 m3 = 3 then
                      (let m4 = (if length (room0 m3) > 0
                                 then (discard0 (room0 m3 ! 0) m3)\<lparr>room0 := []\<rparr>
                                 else m3)
                       in Inr (dealRoom0 m4))
                    else Inr m3))
      else Inr (m\<lparr>selectedCard0 := -1\<rparr>))"

text \<open>The keys \<^verbatim>\<open>1\<close> to \<^verbatim>\<open>4\<close> of \<^verbatim>\<open>Update\<close> call \<^verbatim>\<open>selectCard\<close> with 0 to 3.\<close>

fun run0 :: "int list \<Rightarrow> model0 \<Rightarrow> error + model0" where
  "run0 [] m = Inr m"
| "run0 (index # rest) m =
     (case selectCard0 index m of Inl e \<Rightarrow> Inl e | Inr m' \<Rightarrow> run0 rest m')"

section \<open>Shuffles and states used as examples\<close>

text \<open>
  A shuffle swaps cards of the deck. Three outcomes: the deck reversed (the room is
  Heart 10, 9, 8, 7), the deck rotated by 9 (Club 11, 12, 13, 14) and by 24
  (Spade 13, Spade 14, Diamond 2, Diamond 3); and for \<^verbatim>\<open>main.go\<close> the deck with its
  cards 0 and 27 swapped (Diamond 3, Club 3, Club 4, Club 5).
\<close>

definition heartsDeck :: "Card list" where
  "heartsDeck = rev createDeck"

definition clubsDeck :: "Card list" where
  "clubsDeck = rotate 9 createDeck"


definition weaponDeck0 :: "Card0 list" where
  "weaponDeck0 = createDeck0[0 := createDeck0 ! 27, 27 := createDeck0 ! 0]"

definition mkCard :: "string \<Rightarrow> int \<Rightarrow> string \<Rightarrow> Card" where
  "mkCard s v t = \<lparr>Suit = s, Value = v, Type = t, MonsterValue = 0\<rparr>"

text \<open>A fight pending on Spade 10 with Diamond 5 equipped, weapon requested.\<close>

definition fightState :: model where
  "fightState =
     \<lparr>health = 20, dungeon = [mkCard ''Club'' 9 ''Monster''],
      room = [mkCard ''Spade'' 10 ''Monster'', mkCard ''Heart'' 8 ''Potion''],
      equippedWeapon = mkCard ''Diamond'' 5 ''Weapon'', discardPile = [],
      selectedCard = 0, cardsChosen = 2, weaponLimit = 14, choosingFight = True,
      fightingBarehanded = False, avoidedLastRoom = False, potionUsedThisTurn = False\<rparr>"

text \<open>Health 20 after a potion: the last discard is Heart 8.\<close>

definition potionState :: model where
  "potionState =
     \<lparr>health = 20, dungeon = [mkCard ''Club'' 9 ''Monster''],
      room = [mkCard ''Club'' 2 ''Monster''],
      equippedWeapon = emptyCard, discardPile = [mkCard ''Spade'' 10 ''Monster'',
        mkCard ''Heart'' 8 ''Potion''],
      selectedCard = -1, cardsChosen = 2, weaponLimit = 14, choosingFight = False,
      fightingBarehanded = False, avoidedLastRoom = False, potionUsedThisTurn = True\<rparr>"

text \<open>The last pick of a room in \<^verbatim>\<open>main.go\<close>: two cards chosen, two cards left.\<close>

definition lastPickState0 :: model0 where
  "lastPickState0 =
     \<lparr>health0 = 15, dungeon0 = [\<lparr>Suit0 = ''Heart'', Value0 = 2, Type0 = ''Potion''\<rparr>],
      room0 = [\<lparr>Suit0 = ''Club'', Value0 = 4, Type0 = ''Monster''\<rparr>,
               \<lparr>Suit0 = ''Club'', Value0 = 5, Type0 = ''Monster''\<rparr>],
      equippedWeapon0 = emptyCard0,
      discardPile0 = [\<lparr>Suit0 = ''Club'', Value0 = 2, Type0 = ''Monster''\<rparr>,
                      \<lparr>Suit0 = ''Club'', Value0 = 3, Type0 = ''Monster''\<rparr>],
      selectedCard0 = 0, cardsChosen0 = 2, weaponLimit0 = 14\<rparr>"

section \<open>Comparing outcomes\<close>

text \<open>
  The outcome of \<open>Update\<close> with the health of the returned state blanked, and with its
  \<open>choosingFight\<close> flag blanked: two outcomes that agree after blanking a field differ
  at most in that field.
\<close>

definition forgetHealth :: "error + (model \<times> Cmd) \<Rightarrow> error + (model \<times> Cmd)" where
  "forgetHealth r = map_sum id (\<lambda>(m, cmd). (m\<lparr>health := 0\<rparr>, cmd)) r"


section \<open>Properties of the game with a fight-style choice\<close>

subsection \<open>Go's int\<close>

lemma wrapInt_id: "fitsInt x \<Longrightarrow> wrapInt x = x"
  by (simp add: fitsInt_def wrapInt_def)

lemma fitsInt_wrapInt: "fitsInt (wrapInt x)"
proof -
  have "0 \<le> (x + 2 ^ 63) mod (2 ^ 64 :: int)" and "(x + 2 ^ 63) mod (2 ^ 64 :: int) < 2 ^ 64"
    by simp_all
  then show ?thesis by (simp add: fitsInt_def wrapInt_def)
qed

lemma wrapInt_sub_left: "wrapInt (wrapInt a - b) = wrapInt (a - b)"
proof -
  have "(wrapInt a - b + 2 ^ 63) mod 2 ^ 64 = (a - b + 2 ^ 63) mod (2 ^ 64 :: int)"
  proof -
    have "wrapInt a - b + 2 ^ 63 = (a + 2 ^ 63) mod 2 ^ 64 - b"
      by (simp add: wrapInt_def)
    then show ?thesis
      by (simp add: mod_diff_left_eq algebra_simps)
  qed
  then show ?thesis by (simp add: wrapInt_def)
qed

lemma addInt_fits: "fitsInt (a + b) \<Longrightarrow> addInt a b = a + b"
  by (simp add: addInt_def wrapInt_id)

lemma subInt_fits: "fitsInt (a - b) \<Longrightarrow> subInt a b = a - b"
  by (simp add: subInt_def wrapInt_id)

lemma fitsInt_small: "- 1000 \<le> x \<Longrightarrow> x \<le> 1000 \<Longrightarrow> fitsInt x"
  by (simp add: fitsInt_def)

text \<open>At the lower bound a subtraction wraps to the upper end of the range.\<close>

lemma subInt_wraps: "subInt (- 9223372036854775808) 10 = 9223372036854775798"
  by (simp add: subInt_def wrapInt_def)

subsection \<open>dealRoom\<close>

lemma dealRoom_fields [simp]:
  "health (dealRoom m) = health m"
  "weaponLimit (dealRoom m) = weaponLimit m"
  "equippedWeapon (dealRoom m) = equippedWeapon m"
  "discardPile (dealRoom m) = discardPile m"
  "choosingFight (dealRoom m) = choosingFight m"
  "fightingBarehanded (dealRoom m) = fightingBarehanded m"
  "cardsChosen (dealRoom m) = 0"
  "selectedCard (dealRoom m) = -1"
  "avoidedLastRoom (dealRoom m) = False"
  "potionUsedThisTurn (dealRoom m) = False"
  by (simp_all add: dealRoom_def Let_def split: prod.splits)

lemma dealRoom_room [simp]: "room (dealRoom m) = fst (dealLoop (room m) (dungeon m))"
  and dealRoom_dungeon [simp]: "dungeon (dealRoom m) = snd (dealLoop (room m) (dungeon m))"
  by (simp_all add: dealRoom_def Let_def split: prod.splits)

lemma removeAt_valid:
  "0 \<le> i \<Longrightarrow> i < int (length s) \<Longrightarrow>
     removeAt i s = Inr (take (nat i) s @ drop (nat (i + 1)) s)"
  by (simp add: removeAt_def)

subsection \<open>calculateScore\<close>

lemma score_loop_wrap:
  "wrapInt (foldl (\<lambda>score c. if Type c = ''Monster'' then subInt score (Value c) else score)
              a cs)
     = wrapInt (a - sum_list (map Value (filter (\<lambda>c. Type c = ''Monster'') cs)))"
proof (induction cs arbitrary: a)
  case Nil
  show ?case by simp
next
  case (Cons c cs)
  show ?case
  proof (cases "Type c = ''Monster''")
    case True
    have "wrapInt (subInt a (Value c)
              - sum_list (map Value (filter (\<lambda>c. Type c = ''Monster'') cs)))
        = wrapInt (a - Value c - sum_list (map Value (filter (\<lambda>c. Type c = ''Monster'') cs)))"
      unfolding subInt_def by (rule wrapInt_sub_left)
    with True Cons [of "subInt a (Value c)"] show ?thesis
      by (simp add: algebra_simps)
  next
    case False
    with Cons [of a] show ?thesis by simp
  qed
qed

lemma score_loop_fits:
  "fitsInt a \<Longrightarrow>
     fitsInt (foldl (\<lambda>score c. if Type c = ''Monster'' then subInt score (Value c) else score)
                a cs)"
  by (induction cs arbitrary: a) (simp_all add: subInt_def fitsInt_wrapInt)

lemma score_loop:
  assumes "fitsInt a"
    and "fitsInt (a - sum_list (map Value (filter (\<lambda>c. Type c = ''Monster'') cs)))"
  shows "foldl (\<lambda>score c. if Type c = ''Monster'' then subInt score (Value c) else score) a cs
     = a - sum_list (map Value (filter (\<lambda>c. Type c = ''Monster'') cs))"
proof -
  let ?f = "foldl (\<lambda>score c. if Type c = ''Monster'' then subInt score (Value c) else score)
              a cs"
  have "?f = wrapInt ?f"
    using score_loop_fits [OF assms(1), of cs] by (simp add: wrapInt_id)
  also have "\<dots> = wrapInt (a - sum_list (map Value (filter (\<lambda>c. Type c = ''Monster'') cs)))"
    by (rule score_loop_wrap)
  also have "\<dots> = a - sum_list (map Value (filter (\<lambda>c. Type c = ''Monster'') cs))"
    using assms(2) by (rule wrapInt_id)
  finally show ?thesis .
qed

text \<open>
  Claim C2. The score of a state whose score fits Go's \<^verbatim>\<open>int\<close> (every state of a run
  is one): with health at most 0 it is health minus the sum of the values of the Monster
  cards left in the dungeon; otherwise it is health, plus the value of the last discarded
  card exactly when health is 20 and that card is a Potion. The score is a function of
  the state alone and returns no new state.
\<close>

theorem calculateScore_spec:
  assumes "scoreFits m"
  shows "calculateScore m =
     (if health m \<le> 0
      then health m - sum_list (map Value (filter (\<lambda>c. Type c = ''Monster'') (dungeon m)))
      else health m +
        (if health m = 20 \<and> discardPile m \<noteq> [] \<and> Type (last (discardPile m)) = ''Potion''
         then Value (last (discardPile m)) else 0))"
proof (cases "health m \<le> 0")
  case True
  with assms show ?thesis
    by (simp add: calculateScore_def scoreFits_def score_loop)
next
  case False
  show ?thesis
  proof (cases "discardPile m = []")
    case True
    with False show ?thesis by (simp add: calculateScore_def Let_def)
  next
    case ne: False
    then have "last (discardPile m) \<in> set (discardPile m)" by simp
    with assms have "fitsInt (health m + Value (last (discardPile m)))"
      by (simp add: scoreFits_def list_all_iff)
    with False ne show ?thesis
      by (auto simp add: calculateScore_def Let_def last_conv_nth addInt_fits)
  qed
qed

theorem calculateScore_spec_witness:
  "scoreFits potionState \<and> calculateScore potionState = 28
   \<and> scoreFits (potionState\<lparr>health := -3\<rparr>)
   \<and> calculateScore (potionState\<lparr>health := -3\<rparr>) = -12
   \<and> scoreFits (potionState\<lparr>health := 19\<rparr>)
   \<and> calculateScore (potionState\<lparr>health := 19\<rparr>) = 19"
proof -
  have f: "scoreFits potionState" "scoreFits (potionState\<lparr>health := -3\<rparr>)"
    "scoreFits (potionState\<lparr>health := 19\<rparr>)"
    by (simp_all add: scoreFits_def fitsInt_def potionState_def mkCard_def)
  from f calculateScore_spec [OF f(1)] calculateScore_spec [OF f(2)]
    calculateScore_spec [OF f(3)]
  show ?thesis by (simp add: potionState_def mkCard_def)
qed

subsection \<open>finishFight\<close>

lemma finishFight_valid:
  assumes "0 \<le> selectedCard m" and "selectedCard m < int (length (room m))"
  shows "finishFight m =
     (let c = room m ! nat (selectedCard m);
          assisted = (\<not> fightingBarehanded m \<and> equippedWeapon m \<noteq> emptyCard
                        \<and> Value c \<le> weaponLimit m);
          m4 = m\<lparr>health := (if assisted
                               then (if subInt (Value c) (Value (equippedWeapon m)) > 0
                                     then subInt (health m)
                                            (subInt (Value c) (Value (equippedWeapon m)))
                                     else health m)
                               else subInt (health m) (Value c)),
                   weaponLimit := (if assisted then Value c else weaponLimit m),
                   equippedWeapon := (if assisted
                                      then (equippedWeapon m)\<lparr>MonsterValue := Value c\<rparr>
                                      else equippedWeapon m),
                   discardPile := discardPile m @ [c],
                   room := take (nat (selectedCard m)) (room m)
                             @ drop (nat (selectedCard m + 1)) (room m),
                   selectedCard := -1, choosingFight := False\<rparr>
      in Inr (if length (room m) = 2 then dealRoom m4 else m4))"
proof -
  let ?c = "room m ! nat (selectedCard m)"
  have len: "(4 - int (length (take (nat (selectedCard m)) (room m)
                 @ drop (nat (selectedCard m + 1)) (room m))) = 3) = (length (room m) = 2)"
    using assms by auto
  have rm: "removeAt (selectedCard m) (room m)
      = Inr (take (nat (selectedCard m)) (room m) @ drop (nat (selectedCard m + 1)) (room m))"
    using assms by (rule removeAt_valid)
  consider (bare) "fightingBarehanded m"
    | (unarmed) "\<not> fightingBarehanded m" "equippedWeapon m = emptyCard"
    | (over) "\<not> fightingBarehanded m" "equippedWeapon m \<noteq> emptyCard"
        "Value ?c > weaponLimit m"
    | (hit) "\<not> fightingBarehanded m" "equippedWeapon m \<noteq> emptyCard"
        "Value ?c \<le> weaponLimit m" "subInt (Value ?c) (Value (equippedWeapon m)) > 0"
    | (block) "\<not> fightingBarehanded m" "equippedWeapon m \<noteq> emptyCard"
        "Value ?c \<le> weaponLimit m" "\<not> subInt (Value ?c) (Value (equippedWeapon m)) > 0"
    by linarith
  then show ?thesis
  proof cases
    case bare
    with assms rm len show ?thesis
      unfolding finishFight_def Let_def discard_def by simp
  next
    case unarmed
    with assms rm len show ?thesis
      unfolding finishFight_def Let_def discard_def by simp
  next
    case over
    with assms rm len show ?thesis
      unfolding finishFight_def Let_def discard_def by simp
  next
    case hit
    with assms rm len show ?thesis
      unfolding finishFight_def Let_def discard_def by simp
  next
    case block
    with assms rm len show ?thesis
      unfolding finishFight_def Let_def discard_def by simp
  qed
qed

lemma finishFight_invalid:
  "selectedCard m < 0 \<or> selectedCard m \<ge> int (length (room m))
     \<Longrightarrow> finishFight m = Inr (m\<lparr>choosingFight := False\<rparr>)"
  by (simp add: finishFight_def)

text \<open>
  Claim C1. A fight is resolved when the selected index points into the room; then
  \<open>finishFight\<close> returns a state. Where the subtractions of the fight fit Go's
  \<^verbatim>\<open>int\<close> (in every state of a run they do): if the player fights barehanded, or no
  weapon is equipped, or the monster's value exceeds the weapon limit, health drops by the
  monster's value and neither the limit nor the weapon changes. Otherwise health drops by
  the monster's value minus the weapon's value when that is positive, and by nothing when
  it is not, the limit becomes the monster's value and the weapon records that value.
\<close>

theorem finishFight_damage:
  assumes "0 \<le> selectedCard m" and "selectedCard m < int (length (room m))"
    and "fightFits m"
  shows "\<exists>m'. finishFight m = Inr m' \<and>
     (let c = room m ! nat (selectedCard m) in
      if fightingBarehanded m \<or> equippedWeapon m = emptyCard \<or> Value c > weaponLimit m
      then health m' = health m - Value c
         \<and> weaponLimit m' = weaponLimit m \<and> equippedWeapon m' = equippedWeapon m
      else health m' = health m - max 0 (Value c - Value (equippedWeapon m))
         \<and> weaponLimit m' = Value c
         \<and> equippedWeapon m' = (equippedWeapon m)\<lparr>MonsterValue := Value c\<rparr>)"
proof -
  let ?c = "room m ! nat (selectedCard m)"
  from assms(3) have s1: "subInt (health m) (Value ?c) = health m - Value ?c"
    and s2: "subInt (Value ?c) (Value (equippedWeapon m)) = Value ?c - Value (equippedWeapon m)"
    by (simp_all add: fightFits_def Let_def subInt_fits)
  have s3: "subInt (health m) (Value ?c - Value (equippedWeapon m))
      = health m - (Value ?c - Value (equippedWeapon m))"
    if "Value ?c - Value (equippedWeapon m) > 0"
    using assms(3) that by (simp add: fightFits_def Let_def subInt_fits max_def)
  show ?thesis
    unfolding finishFight_valid [OF assms(1,2)] Let_def
    using s1 s3 by (simp add: s2 max_def not_less)
qed

theorem finishFight_damage_witness:
  "0 \<le> selectedCard fightState \<and> selectedCard fightState < int (length (room fightState))
   \<and> fightFits fightState
   \<and> (\<exists>m'. finishFight fightState = Inr m' \<and> health m' = 15 \<and> weaponLimit m' = 10
          \<and> MonsterValue (equippedWeapon m') = 10)"
proof -
  have f: "fightFits fightState"
    by (simp add: fightFits_def fitsInt_def fightState_def mkCard_def)
  have v: "0 \<le> selectedCard fightState" "selectedCard fightState < int (length (room fightState))"
    by (simp_all add: fightState_def)
  from finishFight_damage [OF v f] f v show ?thesis
    by (auto simp add: fightState_def mkCard_def emptyCard_def Let_def)
qed

subsection \<open>Dealing, avoiding and the bound on health\<close>

lemma dealLoop_eq:
  "dealLoop rm dg = (rm @ take (4 - length rm) dg, drop (4 - length rm) dg)"
proof (induction dg arbitrary: rm)
  case Nil
  show ?case by simp
next
  case (Cons c dg)
  show ?case
  proof (cases "length rm < 4")
    case True
    then have "4 - length rm = Suc (4 - length (rm @ [c]))" by simp
    with True Cons show ?thesis by simp
  next
    case False
    then show ?thesis by simp
  qed
qed

lemma dealRoom_eq:
  "dealRoom m = m\<lparr>avoidedLastRoom := False, potionUsedThisTurn := False,
       dungeon := drop (4 - length (room m)) (dungeon m),
       room := room m @ take (4 - length (room m)) (dungeon m),
       cardsChosen := 0, selectedCard := -1\<rparr>"
  by (simp add: dealRoom_def Let_def dealLoop_eq)

lemma avoid_loop: "foldl (\<lambda>dg c. dg @ [c]) dg rm = dg @ rm"
  by (induction rm arbitrary: dg) simp_all

text \<open>
  Claim C6. The key \<^verbatim>\<open>a\<close> with \<open>avoidedLastRoom\<close> set returns the state as it is.
  Otherwise the room's cards go to the back of the dungeon in their order, the room is
  emptied and dealt again from the front of that dungeon, and \<open>avoidedLastRoom\<close> is set;
  a second \<^verbatim>\<open>a\<close> right after it returns that state as it is.
\<close>

theorem avoidRoom_spec:
  "(avoidedLastRoom m \<longrightarrow> Update (KeyMsg ''a'') deck m = Inr (m, NoCmd))
   \<and> (\<not> avoidedLastRoom m \<longrightarrow>
        (\<exists>m'. Update (KeyMsg ''a'') deck m = Inr (m', NoCmd)
           \<and> m' = m\<lparr>dungeon := drop 4 (dungeon m @ room m),
                      room := take 4 (dungeon m @ room m),
                      cardsChosen := 0, selectedCard := -1,
                      potionUsedThisTurn := False, avoidedLastRoom := True\<rparr>
           \<and> Update (KeyMsg ''a'') deck' m' = Inr (m', NoCmd)))"
  by (simp add: Update_def Let_def avoid_loop dealRoom_eq)

theorem avoidRoom_spec_witness:
  "\<not> avoidedLastRoom fightState
   \<and> avoidedLastRoom (fightState\<lparr>avoidedLastRoom := True\<rparr>)
   \<and> Update (KeyMsg ''a'') [] (fightState\<lparr>avoidedLastRoom := True\<rparr>)
       = Inr (fightState\<lparr>avoidedLastRoom := True\<rparr>, NoCmd)
   \<and> (\<exists>m'. Update (KeyMsg ''a'') [] fightState = Inr (m', NoCmd)
         \<and> room m' = [mkCard ''Club'' 9 ''Monster'', mkCard ''Spade'' 10 ''Monster'',
                       mkCard ''Heart'' 8 ''Potion'']
         \<and> dungeon m' = [] \<and> avoidedLastRoom m'
         \<and> Update (KeyMsg ''a'') [] m' = Inr (m', NoCmd))"
  using avoidRoom_spec [of fightState "[]" "[]"]
    avoidRoom_spec [of "fightState\<lparr>avoidedLastRoom := True\<rparr>" "[]" "[]"]
  by (simp add: fightState_def)

subsection \<open>The invariant of a run\<close>

lemma healthInv_iff:
  "healthInv m \<longleftrightarrow>
     health m \<le> 20
     \<and> (\<forall>c \<in> set (room m) \<union> set (dungeon m) \<union> set (discardPile m). okValue c)
     \<and> okValue (equippedWeapon m)
     \<and> cardSum (room m @ dungeon m) \<le> 316
     \<and> - 296 \<le> health m - cardSum (room m @ dungeon m)"
  by (auto simp add: healthInv_def list_all_iff)

lemma cardSum_mset: "cardSum cs = sum_mset (image_mset Value (mset cs))"
proof -
  have "sum_list (map Value cs) = sum_mset (mset (map Value cs))"
    by (simp only: sum_mset_sum_list)
  then show ?thesis by (simp add: cardSum_def)
qed

lemma cardSum_perm: "mset xs = mset ys \<Longrightarrow> cardSum xs = cardSum ys"
  by (simp add: cardSum_mset)

lemma cardSum_append: "cardSum (xs @ ys) = cardSum xs + cardSum ys"
  by (simp add: cardSum_def)

lemma cardSum_nonneg: "\<forall>c \<in> set cs. okValue c \<Longrightarrow> 0 \<le> cardSum cs"
  unfolding cardSum_def by (rule sum_list_nonneg) (auto simp add: okValue_def)

lemma healthInv_lower: "healthInv m \<Longrightarrow> - 296 \<le> health m"
proof -
  assume inv: "healthInv m"
  then have "0 \<le> cardSum (room m @ dungeon m)"
    by (intro cardSum_nonneg) (auto simp add: healthInv_iff)
  with inv show ?thesis by (simp add: healthInv_iff)
qed

text \<open>
  One step of a run: the cards of room and dungeon are those of before without the cards
  \<open>removed\<close>, and health has fallen by no more than the values of the removed cards.
\<close>

lemma healthInv_after:
  assumes inv: "healthInv m"
    and cards: "mset (room m @ dungeon m) = mset (room m' @ dungeon m' @ removed)"
    and top: "health m' \<le> 20"
    and fall: "health m - cardSum removed \<le> health m'"
    and pile: "\<forall>c \<in> set (discardPile m'). okValue c"
    and slot: "okValue (equippedWeapon m')"
  shows "healthInv m'"
proof -
  from cards have "set (room m @ dungeon m) = set (room m' @ dungeon m' @ removed)"
    by (rule mset_eq_setD)
  then have sets: "set (room m) \<union> set (dungeon m)
      = set (room m') \<union> set (dungeon m') \<union> set removed"
    by (simp add: Un_assoc)
  with inv have ok: "\<forall>c \<in> set (room m') \<union> set (dungeon m') \<union> set removed. okValue c"
    by (auto simp add: healthInv_iff)
  then have nn: "0 \<le> cardSum removed"
    by (intro cardSum_nonneg) simp
  from cards have "cardSum (room m @ dungeon m) = cardSum (room m' @ dungeon m' @ removed)"
    by (rule cardSum_perm)
  then have sum: "cardSum (room m @ dungeon m) = cardSum (room m' @ dungeon m') + cardSum removed"
    by (simp add: cardSum_append)
  from inv have "cardSum (room m @ dungeon m) \<le> 316"
    and "- 296 \<le> health m - cardSum (room m @ dungeon m)"
    by (simp_all add: healthInv_iff)
  with sum nn fall have "cardSum (room m' @ dungeon m') \<le> 316"
    and "- 296 \<le> health m' - cardSum (room m' @ dungeon m')"
    by linarith+
  with top ok pile slot show ?thesis
    by (auto simp add: healthInv_iff)
qed

lemma removeAt_set: "removeAt i s = Inr s' \<Longrightarrow> set s' \<subseteq> set s"
  by (auto simp add: removeAt_def split: if_splits dest: in_set_takeD in_set_dropD)

lemma removeAt_mset:
  assumes "removeAt i s = Inr s'"
  shows "nat i < length s \<and> mset s = mset (s' @ [s ! nat i])"
proof -
  have c: "0 \<le> i \<and> i + 1 \<le> int (length s)"
  proof (rule ccontr)
    assume "\<not> (0 \<le> i \<and> i + 1 \<le> int (length s))"
    then have "removeAt i s = Inl SliceBoundsOutOfRange"
      unfolding removeAt_def by (rule if_not_P)
    with assms show False by simp
  qed
  then have "removeAt i s = Inr (take (nat i) s @ drop (nat (i + 1)) s)"
    unfolding removeAt_def by (rule if_P)
  with assms have "s' = take (nat i) s @ drop (nat (i + 1)) s" by simp
  moreover from c have "nat (i + 1) = Suc (nat i)" by linarith
  ultimately have s': "s' = take (nat i) s @ drop (Suc (nat i)) s" by simp
  from c have i: "0 \<le> i" "nat i < length s" by linarith+
  from i(2) have e: "s = take (nat i) s @ s ! nat i # drop (Suc (nat i)) s"
    by (rule id_take_nth_drop)
  have "mset s = mset (take (nat i) s @ s ! nat i # drop (Suc (nat i)) s)"
    by (rule arg_cong [where f = mset, OF e])
  with i(2) show ?thesis by (simp add: s')
qed

lemma healthInv_flags:
  "healthInv (m\<lparr>selectedCard := a\<rparr>) = healthInv m"
  "healthInv (m\<lparr>cardsChosen := b\<rparr>) = healthInv m"
  "healthInv (m\<lparr>choosingFight := c\<rparr>) = healthInv m"
  "healthInv (m\<lparr>fightingBarehanded := d\<rparr>) = healthInv m"
  "healthInv (m\<lparr>avoidedLastRoom := e\<rparr>) = healthInv m"
  "healthInv (m\<lparr>potionUsedThisTurn := f\<rparr>) = healthInv m"
  "healthInv (m\<lparr>weaponLimit := g\<rparr>) = healthInv m"
  by (simp_all add: healthInv_def)

lemma healthInv_dealRoom: "healthInv m \<Longrightarrow> healthInv (dealRoom m)"
  by (rule healthInv_after [where m = m and removed = "[]"])
     (simp_all add: dealRoom_eq healthInv_iff cardSum_def)

lemma healthInv_removeRoom:
  assumes "healthInv m" and "removeAt i (room m) = Inr rm"
  shows "healthInv (m\<lparr>room := rm\<rparr>)"
proof (rule healthInv_after [where removed = "[room m ! nat i]", OF assms(1)])
  from removeAt_mset [OF assms(2)]
  have i: "nat i < length (room m)" and ms: "mset (room m) = mset (rm @ [room m ! nat i])"
    by simp_all
  from ms show "mset (room m @ dungeon m)
      = mset (room (m\<lparr>room := rm\<rparr>) @ dungeon (m\<lparr>room := rm\<rparr>) @ [room m ! nat i])"
    by simp
  from i have "room m ! nat i \<in> set (room m)" by (rule nth_mem)
  with assms(1) have "okValue (room m ! nat i)" by (simp add: healthInv_iff)
  then show "health m - cardSum [room m ! nat i] \<le> health (m\<lparr>room := rm\<rparr>)"
    by (simp add: cardSum_def okValue_def)
qed (use assms(1) in \<open>simp_all add: healthInv_iff\<close>)


lemma addInt_small:
  "- 500 \<le> a \<Longrightarrow> a \<le> 500 \<Longrightarrow> - 500 \<le> b \<Longrightarrow> b \<le> 500 \<Longrightarrow> addInt a b = a + b"
  by (rule addInt_fits) (simp add: fitsInt_def)

lemma subInt_small:
  "- 500 \<le> a \<Longrightarrow> a \<le> 500 \<Longrightarrow> - 500 \<le> b \<Longrightarrow> b \<le> 500 \<Longrightarrow> subInt a b = a - b"
  by (rule subInt_fits) (simp add: fitsInt_def)

lemma usePotion_used:
  "potionUsedThisTurn m \<Longrightarrow> usePotion i c m = Inr (discard c m)"
  by (simp add: usePotion_def)

lemma usePotion_fresh:
  assumes "\<not> potionUsedThisTurn m" and "0 \<le> i" and "i < int (length (room m))"
  shows "usePotion i c m =
     (let m5 = m\<lparr>health := (if addInt (health m) (Value c) > 20 then 20
                              else addInt (health m) (Value c)),
                   discardPile := discardPile m @ [c], potionUsedThisTurn := True,
                   room := take (nat i) (room m) @ drop (nat (i + 1)) (room m)\<rparr>
      in Inr (if length (room m) = 2 then dealRoom m5 else m5))"
proof -
  have len: "(4 - int (length (take (nat i) (room m) @ drop (nat (i + 1)) (room m))) = 3)
      = (length (room m) = 2)"
    using assms by auto
  have rm: "removeAt i (room m) = Inr (take (nat i) (room m) @ drop (nat (i + 1)) (room m))"
    using assms(2,3) by (rule removeAt_valid)
  show ?thesis
  proof (cases "addInt (health m) (Value c) > 20")
    case True
    with assms(1) rm len show ?thesis
      unfolding usePotion_def Let_def discard_def by simp
  next
    case False
    with assms(1) rm len show ?thesis
      unfolding usePotion_def Let_def discard_def by simp
  qed
qed

lemma usePotion_fresh_panic:
  "\<not> potionUsedThisTurn m \<Longrightarrow> \<not> (0 \<le> i \<and> i < int (length (room m)))
     \<Longrightarrow> usePotion i c m = Inl SliceBoundsOutOfRange"
  unfolding usePotion_def Let_def discard_def removeAt_def by auto

lemma usePotion_health_le:
  assumes "health m \<le> 20" and "usePotion i c m = Inr m'"
  shows "health m' \<le> 20"
proof (cases "potionUsedThisTurn m")
  case True
  with assms show ?thesis by (auto simp add: usePotion_used discard_def)
next
  case False
  show ?thesis
  proof (cases "0 \<le> i \<and> i < int (length (room m))")
    case True
    with False assms(2) show ?thesis
      by (auto simp add: usePotion_fresh Let_def split: if_splits)
  next
    case False
    with \<open>\<not> potionUsedThisTurn m\<close> assms(2) show ?thesis
      by (simp add: usePotion_fresh_panic)
  qed
qed

lemma healthInv_usePotion:
  assumes inv: "healthInv m" and ok: "okValue c" and use: "usePotion i c m = Inr m'"
  shows "healthInv m'"
proof (cases "potionUsedThisTurn m")
  case True
  with use have "m' = discard c m" by (simp add: usePotion_used)
  with inv ok show ?thesis by (auto simp add: discard_def healthInv_iff)
next
  case False
  show ?thesis
  proof (cases "0 \<le> i \<and> i < int (length (room m))")
    case True
    let ?h = "if addInt (health m) (Value c) > 20 then 20 else addInt (health m) (Value c)"
    let ?rm = "take (nat i) (room m) @ drop (nat (i + 1)) (room m)"
    let ?m5 = "m\<lparr>health := ?h, discardPile := discardPile m @ [c],
                   potionUsedThisTurn := True, room := ?rm\<rparr>"
    from True have "removeAt i (room m) = Inr ?rm" by (simp add: removeAt_valid)
    from removeAt_mset [OF this]
    have i: "nat i < length (room m)" and ms: "mset (room m) = mset (?rm @ [room m ! nat i])"
      by simp_all
    from i have "room m ! nat i \<in> set (room m)" by (rule nth_mem)
    with inv have v: "okValue (room m ! nat i)" by (simp add: healthInv_iff)
    from inv have h: "- 296 \<le> health m" "health m \<le> 20"
      by (simp_all add: healthInv_lower healthInv_iff)
    with ok have "addInt (health m) (Value c) = health m + Value c"
      by (intro addInt_small) (simp_all add: okValue_def)
    with ok h have hh: "?h \<le> 20" "health m \<le> ?h"
      by (simp_all add: okValue_def)
    have "healthInv ?m5"
    proof (rule healthInv_after [where m = m and removed = "[room m ! nat i]", OF inv])
      from ms show "mset (room m @ dungeon m)
          = mset (room ?m5 @ dungeon ?m5 @ [room m ! nat i])"
        by simp
      from hh show "health ?m5 \<le> 20" by simp
      from hh v show "health m - cardSum [room m ! nat i] \<le> health ?m5"
        by (simp add: cardSum_def okValue_def)
      from inv ok show "\<forall>c \<in> set (discardPile ?m5). okValue c"
        by (auto simp add: healthInv_iff)
      from inv show "okValue (equippedWeapon ?m5)" by (simp add: healthInv_iff)
    qed
    moreover from True False use
    have "m' = (if length (room m) = 2 then dealRoom ?m5 else ?m5)"
      by (simp add: usePotion_fresh Let_def)
    ultimately show ?thesis by (simp add: healthInv_dealRoom)
  next
    case False
    with \<open>\<not> potionUsedThisTurn m\<close> use show ?thesis
      by (simp add: usePotion_fresh_panic)
  qed
qed

lemma equipWeapon_fields [simp]:
  "health (equipWeapon c m) = health m"
  "room (equipWeapon c m) = room m"
  "dungeon (equipWeapon c m) = dungeon m"
  by (simp_all add: equipWeapon_def Let_def discard_def)

lemma healthInv_equipWeapon:
  "healthInv m \<Longrightarrow> okValue c \<Longrightarrow> healthInv (equipWeapon c m)"
  by (auto simp add: healthInv_iff equipWeapon_def discard_def Let_def okValue_def)

lemma healthInv_selectCard:
  assumes "healthInv m" and "selectCard i m = Inr m'"
  shows "healthInv m'"
proof (cases "i \<ge> 0 \<and> i < int (length (room m)) \<and> cardsChosen m < 3")
  case False
  with assms show ?thesis by (simp add: selectCard_def)
next
  case valid: True
  let ?c = "room m ! nat i"
  let ?m1 = "m\<lparr>selectedCard := i, cardsChosen := cardsChosen m + 1\<rparr>"
  have inv1: "healthInv ?m1"
    using assms(1) by (simp add: healthInv_flags)
  from valid have "nat i < length (room m)" by linarith
  then have "?c \<in> set (room m)" by (rule nth_mem)
  with assms(1) have ok: "okValue ?c" by (simp add: healthInv_iff)
  consider (weapon) "Type ?c = ''Weapon''" | (potion) "Type ?c = ''Potion''"
    | (monster) "Type ?c = ''Monster''"
    | (other) "Type ?c \<noteq> ''Weapon''" "Type ?c \<noteq> ''Potion''" "Type ?c \<noteq> ''Monster''"
    by blast
  then show ?thesis
  proof cases
    case weapon
    with valid assms(2) obtain rm where
      rm: "removeAt i (room (equipWeapon ?c ?m1)) = Inr rm"
      and m': "m' = (equipWeapon ?c ?m1)\<lparr>room := rm\<rparr>"
      unfolding selectCard_def Let_def by (auto split: sum.splits)
    from healthInv_equipWeapon [OF inv1 ok] rm show ?thesis
      unfolding m' by (rule healthInv_removeRoom)
  next
    case potion
    with valid assms(2) obtain m2 rm where
      m2: "usePotion i ?c ?m1 = Inr m2" and rm: "removeAt i (room m2) = Inr rm"
      and m': "m' = m2\<lparr>room := rm\<rparr>"
      unfolding selectCard_def Let_def by (auto split: sum.splits)
    from healthInv_usePotion [OF inv1 ok m2] rm show ?thesis
      unfolding m' by (rule healthInv_removeRoom)
  next
    case monster
    with valid assms(2) have "m' = m\<lparr>selectedCard := i, cardsChosen := cardsChosen m + 1,
        choosingFight := True\<rparr>"
      unfolding selectCard_def Let_def fightMonster_def by auto
    with assms(1) show ?thesis by (simp add: healthInv_flags)
  next
    case other
    with valid assms(2) have "m' = ?m1"
      unfolding selectCard_def Let_def by simp
    with inv1 show ?thesis by simp
  qed
qed

lemma healthInv_finishFight:
  assumes inv: "healthInv m" and fin: "finishFight m = Inr m'"
  shows "healthInv m'"
proof (cases "0 \<le> selectedCard m \<and> selectedCard m < int (length (room m))")
  case False
  then have "finishFight m = Inr (m\<lparr>choosingFight := False\<rparr>)"
    by (intro finishFight_invalid) linarith
  with assms show ?thesis by (auto simp add: healthInv_flags)
next
  case True
  let ?c = "room m ! nat (selectedCard m)"
  let ?rm = "take (nat (selectedCard m)) (room m) @ drop (nat (selectedCard m + 1)) (room m)"
  from True have "removeAt (selectedCard m) (room m) = Inr ?rm" by (simp add: removeAt_valid)
  from removeAt_mset [OF this]
  have i: "nat (selectedCard m) < length (room m)" and ms: "mset (room m) = mset (?rm @ [?c])"
    by simp_all
  from i have "?c \<in> set (room m)" by (rule nth_mem)
  with inv have v: "0 \<le> Value ?c" "Value ?c \<le> 14" by (simp_all add: healthInv_iff okValue_def)
  from inv have w: "0 \<le> Value (equippedWeapon m)" "Value (equippedWeapon m) \<le> 14"
    by (simp_all add: healthInv_iff okValue_def)
  from inv have h: "- 296 \<le> health m" "health m \<le> 20"
    by (simp_all add: healthInv_lower healthInv_iff)
  from v w have s2: "subInt (Value ?c) (Value (equippedWeapon m))
      = Value ?c - Value (equippedWeapon m)"
    by (intro subInt_small) simp_all
  from v h have s1: "subInt (health m) (Value ?c) = health m - Value ?c"
    by (intro subInt_small) simp_all
  from v w h have s3: "subInt (health m) (Value ?c - Value (equippedWeapon m))
      = health m - (Value ?c - Value (equippedWeapon m))"
    by (intro subInt_small) simp_all
  let ?assisted = "\<not> fightingBarehanded m \<and> equippedWeapon m \<noteq> emptyCard
      \<and> Value ?c \<le> weaponLimit m"
  let ?h = "if ?assisted
            then (if subInt (Value ?c) (Value (equippedWeapon m)) > 0
                  then subInt (health m) (subInt (Value ?c) (Value (equippedWeapon m)))
                  else health m)
            else subInt (health m) (Value ?c)"
  let ?w = "if ?assisted then Value ?c else weaponLimit m"
  let ?e = "if ?assisted then (equippedWeapon m)\<lparr>MonsterValue := Value ?c\<rparr>
            else equippedWeapon m"
  let ?m4 = "m\<lparr>health := ?h, weaponLimit := ?w, equippedWeapon := ?e,
       discardPile := discardPile m @ [?c], room := ?rm,
       selectedCard := -1, choosingFight := False\<rparr>"
  from v w h have hh: "?h \<le> 20" "health m - Value ?c \<le> ?h"
    by (simp_all add: s1 s2 s3)
  have "healthInv ?m4"
  proof (rule healthInv_after [where m = m and removed = "[?c]", OF inv])
    from ms show "mset (room m @ dungeon m) = mset (room ?m4 @ dungeon ?m4 @ [?c])"
      by simp
    from hh show "health ?m4 \<le> 20" by simp
    from hh show "health m - cardSum [?c] \<le> health ?m4"
      by (simp add: cardSum_def)
    from inv v show "\<forall>c \<in> set (discardPile ?m4). okValue c"
      by (auto simp add: healthInv_iff okValue_def)
    from inv show "okValue (equippedWeapon ?m4)"
      by (simp add: healthInv_iff okValue_def)
  qed
  moreover from True fin
  have "m' = (if length (room m) = 2 then dealRoom ?m4 else ?m4)"
    by (simp add: finishFight_valid Let_def)
  ultimately show ?thesis by (simp add: healthInv_dealRoom)
qed

lemma createDeck_values: "c \<in> set createDeck \<Longrightarrow> 2 \<le> Value c \<and> Value c \<le> 14"
  by (auto simp add: createDeck_def)

lemma cardSum_createDeck: "cardSum createDeck = 316"
  by code_simp

lemma healthInv_initialModel:
  assumes "mset deck = mset createDeck"
  shows "healthInv (initialModel deck)"
proof -
  from assms have "set deck = set createDeck" by (rule mset_eq_setD)
  then have "\<forall>c \<in> set deck. okValue c"
    using createDeck_values by (fastforce simp add: okValue_def)
  moreover from assms have "cardSum deck = cardSum createDeck"
    by (rule cardSum_perm)
  then have "cardSum deck = 316"
    by (simp only: cardSum_createDeck)
  ultimately show ?thesis
    unfolding initialModel_def
    by (intro healthInv_dealRoom) (simp add: healthInv_iff okValue_def emptyCard_def)
qed

lemma healthInv_withCmd_selectCard:
  "healthInv m \<Longrightarrow> withCmd (selectCard i m) = Inr (m', cmd) \<Longrightarrow> healthInv m'"
  by (auto simp add: withCmd_def split: sum.splits dest: healthInv_selectCard)

lemma healthInv_withCmd_finishFight:
  "healthInv m \<Longrightarrow> withCmd (finishFight (m\<lparr>fightingBarehanded := b\<rparr>)) = Inr (m', cmd)
     \<Longrightarrow> healthInv m'"
proof -
  assume inv: "healthInv m"
    and w: "withCmd (finishFight (m\<lparr>fightingBarehanded := b\<rparr>)) = Inr (m', cmd)"
  from inv have "healthInv (m\<lparr>fightingBarehanded := b\<rparr>)" by (simp add: healthInv_flags)
  moreover from w have "finishFight (m\<lparr>fightingBarehanded := b\<rparr>) = Inr m'"
    by (auto simp add: withCmd_def split: sum.splits)
  ultimately show ?thesis by (rule healthInv_finishFight)
qed

lemma healthInv_avoid:
  assumes "healthInv m"
  shows "healthInv ((dealRoom (m\<lparr>dungeon := foldl (\<lambda>dg c. dg @ [c]) (dungeon m) (room m),
                              room := []\<rparr>))\<lparr>avoidedLastRoom := True\<rparr>)"
proof -
  have "healthInv (m\<lparr>dungeon := dungeon m @ room m, room := []\<rparr>)"
    by (rule healthInv_after [where m = m and removed = "[]", OF assms])
       (use assms in \<open>simp_all add: healthInv_iff cardSum_def\<close>)
  then show ?thesis
    by (simp add: avoid_loop healthInv_flags healthInv_dealRoom)
qed

lemma healthInv_Update:
  assumes "healthInv m" and "mset deck = mset createDeck"
    and "Update msg deck m = Inr (m', cmd)"
  shows "healthInv m'"
proof (cases msg)
  case OtherMsg
  with assms show ?thesis by (simp add: Update_def)
next
  case (KeyMsg k)
  consider "k = ''ctrl+c''" | "k = ''a''" | "k = ''d''" | "k = ''1''" | "k = ''2''"
    | "k = ''3''" | "k = ''4''" | "k = ''b''" | "k = ''w''" | "k = ''r''"
    | "k \<notin> {''ctrl+c'', ''a'', ''d'', ''1'', ''2'', ''3'', ''4'', ''b'', ''w'', ''r''}"
    by auto
  then show ?thesis
  proof cases
    case 1 with KeyMsg assms show ?thesis by (simp add: Update_def)
  next
    case 2 with KeyMsg assms(1,3) healthInv_avoid [OF assms(1)] show ?thesis
      by (auto simp add: Update_def Let_def split: if_splits)
  next
    case 3 with KeyMsg assms(1,3) healthInv_dealRoom [OF assms(1)] show ?thesis
      by (auto simp add: Update_def)
  next
    case 4 with KeyMsg assms(1,3) show ?thesis
      by (auto simp add: Update_def dest: healthInv_withCmd_selectCard)
  next
    case 5 with KeyMsg assms(1,3) show ?thesis
      by (auto simp add: Update_def dest: healthInv_withCmd_selectCard)
  next
    case 6 with KeyMsg assms(1,3) show ?thesis
      by (auto simp add: Update_def dest: healthInv_withCmd_selectCard)
  next
    case 7 with KeyMsg assms(1,3) show ?thesis
      by (auto simp add: Update_def dest: healthInv_withCmd_selectCard)
  next
    case 8 with KeyMsg assms(1,3) show ?thesis
      by (auto simp add: Update_def split: if_splits dest: healthInv_withCmd_finishFight)
  next
    case 9 with KeyMsg assms(1,3) show ?thesis
      by (auto simp add: Update_def split: if_splits dest: healthInv_withCmd_finishFight)
  next
    case 10 with KeyMsg assms(1,3) healthInv_initialModel [OF assms(2)] show ?thesis
      by (auto simp add: Update_def split: if_splits)
  next
    case 11 with KeyMsg assms(1,3) show ?thesis
      by (auto simp add: Update_def split: if_splits)
  qed
qed

lemma reachable_healthInv: "reachable m \<Longrightarrow> healthInv m"
  by (induction rule: reachable.induct)
     (auto intro: healthInv_initialModel healthInv_Update)

text \<open>
  Claim C3. In every state of a run health is at most 20, and any use of a potion in
  such a state returns a state with health at most 20.
\<close>

text \<open>
  In every state of a run the numbers of a fight and of the score are far from the
  bounds of Go's \<^verbatim>\<open>int\<close>: health lies between -296 and 20 and every value between 0
  and 14, so nothing in a run wraps around.
\<close>

lemma monsterSum_bounds:
  assumes "\<forall>c \<in> set cs. okValue c"
  shows "0 \<le> sum_list (map Value (filter P cs))
     \<and> sum_list (map Value (filter P cs)) \<le> cardSum cs"
  using assms by (induction cs) (auto simp add: cardSum_def okValue_def)

lemma healthInv_scoreFits:
  assumes "healthInv m"
  shows "scoreFits m"
proof -
  from assms have h: "- 296 \<le> health m" "health m \<le> 20"
    by (simp_all add: healthInv_lower healthInv_iff)
  from assms have ok: "\<forall>c \<in> set (dungeon m). okValue c" "\<forall>c \<in> set (room m). okValue c"
    by (simp_all add: healthInv_iff)
  let ?s = "sum_list (map Value (filter (\<lambda>c. Type c = ''Monster'') (dungeon m)))"
  from monsterSum_bounds [OF ok(1)] have "0 \<le> ?s" "?s \<le> cardSum (dungeon m)"
    by simp_all
  moreover from ok(2) have "0 \<le> cardSum (room m)" by (rule cardSum_nonneg)
  moreover from assms have "cardSum (room m) + cardSum (dungeon m) \<le> 316"
    by (simp add: healthInv_iff cardSum_append)
  ultimately have s: "0 \<le> ?s" "?s \<le> 316" by linarith+
  from assms have "\<forall>c \<in> set (discardPile m). 0 \<le> Value c \<and> Value c \<le> 14"
    by (simp add: healthInv_iff okValue_def)
  with h s show ?thesis
    by (auto simp add: scoreFits_def fitsInt_def list_all_iff)
qed

lemma healthInv_fightFits:
  assumes "healthInv m" and "0 \<le> selectedCard m" and "selectedCard m < int (length (room m))"
  shows "fightFits m"
proof -
  let ?c = "room m ! nat (selectedCard m)"
  from assms(2,3) have "nat (selectedCard m) < length (room m)" by linarith
  then have "?c \<in> set (room m)" by (rule nth_mem)
  with assms(1) have "0 \<le> Value ?c" "Value ?c \<le> 14"
    by (simp_all add: healthInv_iff okValue_def)
  moreover from assms(1) have "0 \<le> Value (equippedWeapon m)" "Value (equippedWeapon m) \<le> 14"
    by (simp_all add: healthInv_iff okValue_def)
  moreover from assms(1) have "- 296 \<le> health m" "health m \<le> 20"
    by (simp_all add: healthInv_lower healthInv_iff)
  ultimately show ?thesis
    by (simp add: fightFits_def Let_def fitsInt_def max_def)
qed

lemma reachable_scoreFits: "reachable m \<Longrightarrow> scoreFits m"
  by (rule healthInv_scoreFits) (rule reachable_healthInv)

lemma reachable_fightFits:
  assumes "reachable m" and "0 \<le> selectedCard m" and "selectedCard m < int (length (room m))"
  shows "fightFits (m\<lparr>fightingBarehanded := b\<rparr>)"
proof -
  from assms(1) have "healthInv (m\<lparr>fightingBarehanded := b\<rparr>)"
    by (simp add: healthInv_flags reachable_healthInv)
  with assms(2,3) show ?thesis
    by (intro healthInv_fightFits) simp_all
qed

text \<open>
  Claim C3. In every state of a run health is at most 20, and any use of a potion in
  such a state returns a state with health at most 20.
\<close>

theorem health_never_exceeds_20:
  assumes "reachable m"
  shows "health m \<le> 20 \<and> (\<forall>index c m'. usePotion index c m = Inr m' \<longrightarrow> health m' \<le> 20)"
proof -
  from assms have inv: "healthInv m" by (rule reachable_healthInv)
  then have le: "health m \<le> 20" by (simp add: healthInv_iff)
  moreover have "health m' \<le> 20" if "usePotion index c m = Inr m'" for index c m'
    using le that by (rule usePotion_health_le)
  ultimately show ?thesis by blast
qed

theorem health_never_exceeds_20_witness:
  "reachable (initialModel createDeck) \<and> health (initialModel createDeck) \<le> 20
   \<and> (\<exists>m'. usePotion 0 (mkCard ''Heart'' 5 ''Potion'') (initialModel createDeck) = Inr m'
          \<and> health m' \<le> 20)"
proof -
  let ?u = "usePotion 0 (mkCard ''Heart'' 5 ''Potion'') (initialModel createDeck)"
  have r: "reachable (initialModel createDeck)"
    using reachable_init [of createDeck] by simp
  have "map_sum id health ?u = Inr 20" by code_simp
  then obtain m' where "?u = Inr m'" by (cases ?u) simp_all
  with health_never_exceeds_20 [OF r] r show ?thesis by blast
qed

subsection \<open>Shuffles\<close>

lemma length_createDeck: "length createDeck = 44"
  by (simp add: createDeck_def)

lemma length_createDeck0: "length createDeck0 = 44"
  by (simp add: createDeck0_def)

lemma mset_rotate1: "mset (rotate1 xs) = mset xs"
  by (cases xs) simp_all

lemma mset_rotate: "mset (rotate n xs) = mset xs"
  by (induction n) (simp_all add: mset_rotate1)

lemma mset_heartsDeck: "mset heartsDeck = mset createDeck"
  by (simp add: heartsDeck_def)

lemma mset_clubsDeck: "mset clubsDeck = mset createDeck"
  by (simp add: clubsDeck_def mset_rotate)


lemma mset_weaponDeck0: "mset weaponDeck0 = mset createDeck0"
  unfolding weaponDeck0_def by (rule mset_swap) (simp_all add: length_createDeck0)

lemma reachable_run:
  "reachable m \<Longrightarrow> mset deck = mset createDeck \<Longrightarrow> run msgs deck m = Inr m'
     \<Longrightarrow> reachable m'"
proof (induction msgs arbitrary: m)
  case Nil
  then show ?case by simp
next
  case (Cons msg msgs)
  from Cons.prems(3) obtain m1 cmd where
    u: "Update msg deck m = Inr (m1, cmd)" and r: "run msgs deck m1 = Inr m'"
    by (auto split: sum.splits)
  from Cons.prems(1,2) u have "reachable m1" by (rule reachable_step)
  from Cons.IH [OF this Cons.prems(2) r] show ?case .
qed


subsection \<open>selectCard, branch by branch\<close>

lemma selectCard_invalid:
  "\<not> (i \<ge> 0 \<and> i < int (length (room m)) \<and> cardsChosen m < 3) \<Longrightarrow> selectCard i m = Inr m"
  unfolding selectCard_def by (rule if_not_P)

lemma selectCard_weapon:
  assumes "i \<ge> 0" "i < int (length (room m))" "cardsChosen m < 3"
    and "Type (room m ! nat i) = ''Weapon''"
  shows "selectCard i m =
     Inr ((equipWeapon (room m ! nat i) (m\<lparr>selectedCard := i, cardsChosen := cardsChosen m + 1\<rparr>))
            \<lparr>room := take (nat i) (room m) @ drop (nat (i + 1)) (room m)\<rparr>)"
  unfolding selectCard_def Let_def using assms by (simp add: removeAt_valid)

lemma selectCard_potion:
  assumes "i \<ge> 0" "i < int (length (room m))" "cardsChosen m < 3"
    and "Type (room m ! nat i) = ''Potion''"
  shows "selectCard i m =
     (case usePotion i (room m ! nat i) (m\<lparr>selectedCard := i, cardsChosen := cardsChosen m + 1\<rparr>) of
        Inl e \<Rightarrow> Inl e
      | Inr m2 \<Rightarrow> (case removeAt i (room m2) of
                     Inl e \<Rightarrow> Inl e
                   | Inr rm \<Rightarrow> Inr (m2\<lparr>room := rm\<rparr>)))"
  unfolding selectCard_def Let_def using assms by simp

lemma selectCard_monster:
  assumes "i \<ge> 0" "i < int (length (room m))" "cardsChosen m < 3"
    and "Type (room m ! nat i) = ''Monster''"
  shows "selectCard i m =
     Inr (m\<lparr>selectedCard := i, cardsChosen := cardsChosen m + 1, choosingFight := True\<rparr>)"
  unfolding selectCard_def Let_def fightMonster_def using assms by simp

lemma selectCard_other:
  assumes "i \<ge> 0" "i < int (length (room m))" "cardsChosen m < 3"
    and "Type (room m ! nat i) \<noteq> ''Weapon''" "Type (room m ! nat i) \<noteq> ''Potion''"
        "Type (room m ! nat i) \<noteq> ''Monster''"
  shows "selectCard i m = Inr (m\<lparr>selectedCard := i, cardsChosen := cardsChosen m + 1\<rparr>)"
  unfolding selectCard_def Let_def using assms by simp

lemma selectCard_potion_used:
  assumes "i \<ge> 0" "i < int (length (room m))" "cardsChosen m < 3"
    and "Type (room m ! nat i) = ''Potion''" and "potionUsedThisTurn m"
  shows "selectCard i m =
     Inr (m\<lparr>selectedCard := i, cardsChosen := cardsChosen m + 1,
            discardPile := discardPile m @ [room m ! nat i],
            room := take (nat i) (room m) @ drop (nat (i + 1)) (room m)\<rparr>)"
  using assms
  by (simp add: selectCard_potion usePotion_used discard_def removeAt_valid)

lemma selectCard_potion_fresh:
  assumes "i \<ge> 0" "i < int (length (room m))" "cardsChosen m < 3"
    and "Type (room m ! nat i) = ''Potion''" and "\<not> potionUsedThisTurn m"
  shows "selectCard i m =
     (let m5 = m\<lparr>selectedCard := i, cardsChosen := cardsChosen m + 1,
                   health := (if addInt (health m) (Value (room m ! nat i)) > 20 then 20
                              else addInt (health m) (Value (room m ! nat i))),
                   discardPile := discardPile m @ [room m ! nat i],
                   potionUsedThisTurn := True,
                   room := take (nat i) (room m) @ drop (nat (i + 1)) (room m)\<rparr>;
          m6 = (if length (room m) = 2 then dealRoom m5 else m5)
      in case removeAt i (room m6) of
           Inl e \<Rightarrow> Inl e
         | Inr rm \<Rightarrow> Inr (m6\<lparr>room := rm\<rparr>))"
  using assms
  by (simp add: selectCard_potion usePotion_fresh Let_def cong: sum.case_cong)



lemma dealRoom_health: "dealRoom (m\<lparr>health := h\<rparr>) = (dealRoom m)\<lparr>health := h\<rparr>"
  by (simp add: dealRoom_eq)

lemma dealRoom_choosing:
  "dealRoom (m\<lparr>choosingFight := b\<rparr>) = (dealRoom m)\<lparr>choosingFight := b\<rparr>"
  by (simp add: dealRoom_eq)

lemma equipWeapon_health:
  "equipWeapon c (m\<lparr>health := h\<rparr>) = (equipWeapon c m)\<lparr>health := h\<rparr>"
  by (simp add: equipWeapon_def discard_def Let_def)

lemma equipWeapon_choosing:
  "equipWeapon c (m\<lparr>choosingFight := b\<rparr>) = (equipWeapon c m)\<lparr>choosingFight := b\<rparr>"
  by (simp add: equipWeapon_def discard_def Let_def)

lemma selectCard_health:
  "map_sum id (\<lambda>m. m\<lparr>health := 0\<rparr>) (selectCard i (m\<lparr>health := h\<rparr>))
     = map_sum id (\<lambda>m. m\<lparr>health := 0\<rparr>) (selectCard i m)"
proof (cases "i \<ge> 0 \<and> i < int (length (room m)) \<and> cardsChosen m < 3")
  case False
  then show ?thesis by (simp add: selectCard_invalid)
next
  case valid: True
  let ?c = "room m ! nat i"
  consider (weapon) "Type ?c = ''Weapon''"
    | (used) "Type ?c = ''Potion''" "potionUsedThisTurn m"
    | (fresh) "Type ?c = ''Potion''" "\<not> potionUsedThisTurn m"
    | (monster) "Type ?c = ''Monster''"
    | (other) "Type ?c \<noteq> ''Weapon''" "Type ?c \<noteq> ''Potion''" "Type ?c \<noteq> ''Monster''"
    by blast
  then show ?thesis
  proof cases
    case weapon
    with valid show ?thesis by (simp add: selectCard_weapon equipWeapon_def discard_def Let_def)
  next
    case used
    with valid show ?thesis by (simp add: selectCard_potion_used)
  next
    case fresh
    with valid show ?thesis
      by (simp add: selectCard_potion_fresh Let_def dealRoom_eq split: sum.splits)
  next
    case monster
    with valid show ?thesis by (simp add: selectCard_monster)
  next
    case other
    with valid show ?thesis by (simp add: selectCard_other)
  qed
qed


lemma finishFight_health:
  "map_sum id (\<lambda>m. m\<lparr>health := 0\<rparr>) (finishFight (m\<lparr>health := h\<rparr>))
     = map_sum id (\<lambda>m. m\<lparr>health := 0\<rparr>) (finishFight m)"
proof (cases "0 \<le> selectedCard m \<and> selectedCard m < int (length (room m))")
  case False
  then have "selectedCard m < 0 \<or> selectedCard m \<ge> int (length (room m))" by linarith
  then show ?thesis by (simp add: finishFight_invalid)
next
  case True
  then show ?thesis by (simp add: finishFight_valid Let_def dealRoom_eq)
qed

lemma forgetHealth_withCmd:
  "forgetHealth (withCmd r) = withCmd (map_sum id (\<lambda>m. m\<lparr>health := 0\<rparr>) r)"
  by (cases r) (simp_all add: forgetHealth_def withCmd_def)


lemma finishFight_style_health:
  "map_sum id (\<lambda>m. m\<lparr>health := 0\<rparr>) (finishFight (m\<lparr>health := h, fightingBarehanded := fb\<rparr>))
     = map_sum id (\<lambda>m. m\<lparr>health := 0\<rparr>) (finishFight (m\<lparr>fightingBarehanded := fb\<rparr>))"
proof -
  have "m\<lparr>health := h, fightingBarehanded := fb\<rparr> = (m\<lparr>fightingBarehanded := fb\<rparr>)\<lparr>health := h\<rparr>"
    by simp
  then show ?thesis by (simp only: finishFight_health)
qed

lemma Update_health:
  assumes "msg \<noteq> KeyMsg ''r''"
  shows "forgetHealth (Update msg deck (m\<lparr>health := h\<rparr>)) = forgetHealth (Update msg deck m)"
proof (cases msg)
  case OtherMsg
  then show ?thesis by (simp add: Update_def forgetHealth_def)
next
  case (KeyMsg k)
  with assms have nr: "k \<noteq> ''r''" by simp
  consider "k = ''ctrl+c''" | "k = ''a''" | "k = ''d''" | "k = ''1''" | "k = ''2''"
    | "k = ''3''" | "k = ''4''" | "k = ''b''" | "k = ''w''"
    | "k \<notin> {''ctrl+c'', ''a'', ''d'', ''1'', ''2'', ''3'', ''4'', ''b'', ''w'', ''r''}"
    using nr by auto
  then show ?thesis
  proof cases
    case 1 with KeyMsg show ?thesis by (simp add: Update_def forgetHealth_def)
  next
    case 2 with KeyMsg show ?thesis
      by (simp add: Update_def forgetHealth_def Let_def avoid_loop dealRoom_eq)
  next
    case 3 with KeyMsg show ?thesis by (simp add: Update_def forgetHealth_def dealRoom_eq)
  next
    case 4 with KeyMsg show ?thesis
      by (simp add: Update_def forgetHealth_withCmd selectCard_health)
  next
    case 5 with KeyMsg show ?thesis
      by (simp add: Update_def forgetHealth_withCmd selectCard_health)
  next
    case 6 with KeyMsg show ?thesis
      by (simp add: Update_def forgetHealth_withCmd selectCard_health)
  next
    case 7 with KeyMsg show ?thesis
      by (simp add: Update_def forgetHealth_withCmd selectCard_health)
  next
    case 8 with KeyMsg show ?thesis
      by (simp add: Update_def forgetHealth_withCmd finishFight_style_health)
         (simp add: forgetHealth_def)
  next
    case 9 with KeyMsg show ?thesis
      by (simp add: Update_def forgetHealth_withCmd finishFight_style_health)
         (simp add: forgetHealth_def)
  next
    case 10 with KeyMsg show ?thesis by (simp add: Update_def forgetHealth_def)
  qed
qed


subsection \<open>The weapon limit\<close>

text \<open>
  With the fight-style choice, \<open>finishFight\<close> never raises the weapon limit: it writes
  the limit only when the monster's value is at most the limit.
\<close>

lemma finishFight_limit_mono:
  assumes "finishFight m = Inr m'"
  shows "weaponLimit m' \<le> weaponLimit m"
proof (cases "0 \<le> selectedCard m \<and> selectedCard m < int (length (room m))")
  case False
  then have "finishFight m = Inr (m\<lparr>choosingFight := False\<rparr>)"
    by (intro finishFight_invalid) linarith
  with assms show ?thesis by auto
next
  case True
  with assms show ?thesis
    by (auto simp add: finishFight_valid Let_def split: if_splits)
qed

text \<open>
  Claim C4. While one weapon is equipped, the weapon limit after a fight with the weapon
  is at most the limit before it. With the fight-style choice this holds, as the lemma
  above shows. \<^verbatim>\<open>main.go\<close> declares \<^verbatim>\<open>weaponLimit\<close> as the maximum value a weapon
  can be used on, but its \<^verbatim>\<open>fightMonster\<close> never compares a monster with the limit
  and overwrites the limit with the value of every monster fought with a weapon. From the
  deal Diamond 3, Club 3, Club 4, Club 5: equipping Diamond 3 and fighting Club 3 leaves
  the limit at 3; fighting Club 4 next, with the same weapon, raises it to 4.
\<close>

theorem fightMonster0_raises_limit:
  "mset weaponDeck0 = mset createDeck0
   \<and> map_sum id weaponLimit0 (run0 [0, 0] (initialModel0 weaponDeck0)) = Inr 3
   \<and> map_sum id weaponLimit0 (run0 [0, 0, 0] (initialModel0 weaponDeck0)) = Inr 4
   \<and> map_sum id (\<lambda>m. Value0 (equippedWeapon0 m)) (run0 [0, 0] (initialModel0 weaponDeck0)) = Inr 3
   \<and> map_sum id (\<lambda>m. Value0 (equippedWeapon0 m)) (run0 [0, 0, 0] (initialModel0 weaponDeck0)) = Inr 3"
  using mset_weaponDeck0 by (intro conjI, assumption) code_simp+

subsection \<open>Potions\<close>

text \<open>
  The gate on healing, at the level of \<open>usePotion\<close>: a first potion that triggers no
  refill adds its value to health, up to 20, and is discarded; a second potion after it
  is discarded and leaves health as it is.
\<close>

lemma usePotion_heals_once:
  assumes "\<not> potionUsedThisTurn m" and "length (room m) \<noteq> 2"
    and "usePotion i c1 m = Inr m1"
  shows "health m1 = min 20 (addInt (health m) (Value c1))
     \<and> discardPile m1 = discardPile m @ [c1]
     \<and> (\<exists>m2. usePotion j c2 m1 = Inr m2 \<and> health m2 = health m1
            \<and> discardPile m2 = discardPile m1 @ [c2])"
proof (cases "0 \<le> i \<and> i < int (length (room m))")
  case False
  with assms show ?thesis by (simp add: usePotion_fresh_panic)
next
  case True
  with assms have m1: "m1 = m\<lparr>health := (if addInt (health m) (Value c1) > 20 then 20
                              else addInt (health m) (Value c1)),
                   discardPile := discardPile m @ [c1], potionUsedThisTurn := True,
                   room := take (nat i) (room m) @ drop (nat (i + 1)) (room m)\<rparr>"
    by (simp add: usePotion_fresh Let_def)
  then have "potionUsedThisTurn m1" by simp
  then have "usePotion j c2 m1 = Inr (discard c2 m1)" by (rule usePotion_used)
  with m1 show ?thesis by (simp add: discard_def min_def)
qed

text \<open>
  Claim C5. Of two potions selected in one room the first heals, up to 20, and the second
  is discarded without a change of health. The gate holds in \<open>usePotion\<close>, as the lemma
  above shows, but the second potion can be lost before it is selected: the first potion
  of a room is removed from the room by \<open>usePotion\<close>, and \<open>selectCard\<close> then removes
  the card at the same index once more. From the deal
  Heart 10, 9, 8, 7, the key \<^verbatim>\<open>1\<close> discards Heart 10 and leaves the room
  Heart 8, Heart 7: the second potion, Heart 9, is gone from the room without having been
  discarded, and it is not in the dungeon either. The key \<^verbatim>\<open>4\<close> on the same deal
  panics in the second removal.
\<close>

theorem second_potion_removed_unused:
  "room (initialModel heartsDeck)
     = [mkCard ''Heart'' 10 ''Potion'', mkCard ''Heart'' 9 ''Potion'',
        mkCard ''Heart'' 8 ''Potion'', mkCard ''Heart'' 7 ''Potion'']
   \<and> map_sum id room (run [KeyMsg ''1''] heartsDeck (initialModel heartsDeck))
     = Inr [mkCard ''Heart'' 8 ''Potion'', mkCard ''Heart'' 7 ''Potion'']
   \<and> map_sum id discardPile (run [KeyMsg ''1''] heartsDeck (initialModel heartsDeck))
     = Inr [mkCard ''Heart'' 10 ''Potion'']
   \<and> map_sum id (\<lambda>m. mkCard ''Heart'' 9 ''Potion'' \<in> set (dungeon m))
        (run [KeyMsg ''1''] heartsDeck (initialModel heartsDeck)) = Inr False
   \<and> run [KeyMsg ''4''] heartsDeck (initialModel heartsDeck) = Inl SliceBoundsOutOfRange"
  by code_simp

text \<open>
  Claim C10. Every card of the deck is in exactly one of the dungeon, the room, the
  discard pile and the weapon slot, so these hold 44 cards in every state of a run. The
  second removal after a first potion drops a card from all of them: the deal
  Heart 10, 9, 8, 7 holds 44 cards in its zones; after the key \<^verbatim>\<open>1\<close> the zones
  hold 43.
\<close>

theorem zoneCount_after_potion:
  "zoneCount (initialModel heartsDeck) = 44
   \<and> map_sum id zoneCount (run [KeyMsg ''1''] heartsDeck (initialModel heartsDeck)) = Inr 43"
  by code_simp

subsection \<open>Game over\<close>

text \<open>
  Claim C7, as stated, fails: after the deal Club 11, 12, 13, 14 and two barehanded
  fights the state of the run has health -3, and the key \<^verbatim>\<open>d\<close> still tops the
  room up while the key \<^verbatim>\<open>1\<close> still opens a fight.
\<close>

theorem actions_after_game_over:
  "map_sum id reachable
        (run [KeyMsg ''1'', KeyMsg ''b'', KeyMsg ''1'', KeyMsg ''b''] clubsDeck
           (initialModel clubsDeck)) = Inr True
   \<and> map_sum id health
        (run [KeyMsg ''1'', KeyMsg ''b'', KeyMsg ''1'', KeyMsg ''b''] clubsDeck
           (initialModel clubsDeck)) = Inr (- 3)
   \<and> map_sum id room
        (run [KeyMsg ''1'', KeyMsg ''b'', KeyMsg ''1'', KeyMsg ''b''] clubsDeck
           (initialModel clubsDeck))
       = Inr [mkCard ''Club'' 13 ''Monster'', mkCard ''Club'' 14 ''Monster'']
   \<and> map_sum id room
        (run [KeyMsg ''1'', KeyMsg ''b'', KeyMsg ''1'', KeyMsg ''b'', KeyMsg ''d''] clubsDeck
           (initialModel clubsDeck))
       = Inr [mkCard ''Club'' 13 ''Monster'', mkCard ''Club'' 14 ''Monster'',
              mkCard ''Spade'' 2 ''Monster'', mkCard ''Spade'' 3 ''Monster'']
   \<and> map_sum id choosingFight
        (run [KeyMsg ''1'', KeyMsg ''b'', KeyMsg ''1'', KeyMsg ''b''] clubsDeck
           (initialModel clubsDeck)) = Inr False
   \<and> map_sum id choosingFight
        (run [KeyMsg ''1'', KeyMsg ''b'', KeyMsg ''1'', KeyMsg ''b'', KeyMsg ''1''] clubsDeck
           (initialModel clubsDeck)) = Inr True"
proof -
  let ?r = "run [KeyMsg ''1'', KeyMsg ''b'', KeyMsg ''1'', KeyMsg ''b''] clubsDeck
              (initialModel clubsDeck)"
  have h: "map_sum id health ?r = Inr (- 3)" by code_simp
  then obtain m' where m': "?r = Inr m'" by (cases ?r) simp_all
  have "reachable (initialModel clubsDeck)"
    using mset_clubsDeck by (rule reachable_init)
  from reachable_run [OF this mset_clubsDeck m'] have "map_sum id reachable ?r = Inr True"
    unfolding m' by simp
  moreover note h
  moreover have "map_sum id room ?r
       = Inr [mkCard ''Club'' 13 ''Monster'', mkCard ''Club'' 14 ''Monster'']"
    by code_simp
  moreover have "map_sum id room
        (run [KeyMsg ''1'', KeyMsg ''b'', KeyMsg ''1'', KeyMsg ''b'', KeyMsg ''d''] clubsDeck
           (initialModel clubsDeck))
       = Inr [mkCard ''Club'' 13 ''Monster'', mkCard ''Club'' 14 ''Monster'',
              mkCard ''Spade'' 2 ''Monster'', mkCard ''Spade'' 3 ''Monster'']"
    by code_simp
  moreover have "map_sum id choosingFight ?r = Inr False" by code_simp
  moreover have "map_sum id choosingFight
        (run [KeyMsg ''1'', KeyMsg ''b'', KeyMsg ''1'', KeyMsg ''b'', KeyMsg ''1''] clubsDeck
           (initialModel clubsDeck)) = Inr True"
    by code_simp
  ultimately show ?thesis by blast
qed

text \<open>
  Claim C7, amended. Health is read by the key \<^verbatim>\<open>r\<close> alone: with health at most 0
  it returns the initial model of a fresh shuffle, with positive health it returns the
  state as it is. Every other message is handled without looking at health, at health 0
  or below as at any other health: the outcome for a state and for the same state with
  any other health agree in everything but the health of the returned state.
\<close>

theorem restart_is_the_only_health_gate:
  "(health m \<le> 0 \<longrightarrow> Update (KeyMsg ''r'') deck m = Inr (initialModel deck, NoCmd))
   \<and> (0 < health m \<longrightarrow> Update (KeyMsg ''r'') deck m = Inr (m, NoCmd))
   \<and> (msg \<noteq> KeyMsg ''r'' \<longrightarrow>
        forgetHealth (Update msg deck (m\<lparr>health := h\<rparr>)) = forgetHealth (Update msg deck m))"
  using Update_health [where msg = msg and deck = deck and m = m and h = h] by (simp add: Update_def)

theorem restart_is_the_only_health_gate_witness:
  "health (potionState\<lparr>health := - 3\<rparr>) \<le> 0
   \<and> Update (KeyMsg ''r'') createDeck (potionState\<lparr>health := - 3\<rparr>)
       = Inr (initialModel createDeck, NoCmd)
   \<and> 0 < health potionState
   \<and> Update (KeyMsg ''r'') createDeck potionState = Inr (potionState, NoCmd)
   \<and> KeyMsg ''d'' \<noteq> KeyMsg ''r''
   \<and> forgetHealth (Update (KeyMsg ''d'') createDeck (potionState\<lparr>health := - 3\<rparr>))
       = forgetHealth (Update (KeyMsg ''d'') createDeck potionState)"
  using restart_is_the_only_health_gate
          [where m = "potionState\<lparr>health := - 3\<rparr>" and deck = createDeck
             and msg = "KeyMsg ''d''" and h = "- 3"]
        restart_is_the_only_health_gate
          [where m = potionState and deck = createDeck and msg = "KeyMsg ''d''" and h = "- 3"]
  by (simp add: potionState_def)

subsection \<open>The pending fight\<close>





section \<open>Properties of the game in main.go, and the refill\<close>

lemma dealLoop0_eq:
  "dealLoop0 i rm dg = (rm @ take (nat (4 - i)) dg, drop (nat (4 - i)) dg)"
proof (induction dg arbitrary: i rm)
  case Nil
  show ?case by simp
next
  case (Cons c dg)
  show ?case
  proof (cases "i < 4")
    case True
    then have "nat (4 - i) = Suc (nat (4 - (i + 1)))" by simp
    with True Cons show ?thesis by simp
  next
    case False
    then show ?thesis by simp
  qed
qed

lemma dealRoom0_eq:
  "dealRoom0 m = m\<lparr>dungeon0 := drop 4 (dungeon0 m), room0 := take 4 (dungeon0 m),
                    cardsChosen0 := 0, selectedCard0 := -1\<rparr>"
  by (simp add: dealRoom0_def Let_def dealLoop0_eq)

lemma action0_fields [simp]:
  "room0 (equipWeapon0 c m) = room0 m" "dungeon0 (equipWeapon0 c m) = dungeon0 m"
  "cardsChosen0 (equipWeapon0 c m) = cardsChosen0 m"
  "room0 (usePotion0 c m) = room0 m" "dungeon0 (usePotion0 c m) = dungeon0 m"
  "cardsChosen0 (usePotion0 c m) = cardsChosen0 m"
  "room0 (fightMonster0 c m) = room0 m" "dungeon0 (fightMonster0 c m) = dungeon0 m"
  "cardsChosen0 (fightMonster0 c m) = cardsChosen0 m"
  by (simp_all add: equipWeapon0_def usePotion0_def fightMonster0_def discard0_def Let_def)

lemma usePotion0_clamped: "health0 (usePotion0 c m) \<le> 20"
  by (simp add: usePotion0_def discard0_def Let_def)

lemma selectCard0_third:
  assumes "0 \<le> i" and "i < 2" and "length (room0 m) = 2" and "cardsChosen0 m = 2"
  shows "\<exists>m'. selectCard0 i m = Inr m' \<and> room0 m' = take 4 (dungeon0 m)
     \<and> dungeon0 m' = drop 4 (dungeon0 m)
     \<and> discardPile0 m' \<noteq> [] \<and> last (discardPile0 m') = room0 m ! nat (1 - i)"
proof -
  let ?c = "room0 m ! nat i"
  let ?m1 = "m\<lparr>selectedCard0 := i, cardsChosen0 := cardsChosen0 m + 1\<rparr>"
  define m2 where "m2 = (if Type0 ?c = ''Weapon'' then equipWeapon0 ?c ?m1
                   else if Type0 ?c = ''Potion'' then usePotion0 ?c ?m1
                   else if Type0 ?c = ''Monster'' then fightMonster0 ?c ?m1
                   else ?m1)"
  have f: "room0 m2 = room0 m" "dungeon0 m2 = dungeon0 m" "cardsChosen0 m2 = 3"
    using assms(4) by (simp_all add: m2_def)
  have rm: "removeAt i (room0 m) = Inr [room0 m ! nat (1 - i)]"
  proof -
    from assms obtain a b where ab: "room0 m = [a, b]"
      by (cases "room0 m"; cases "tl (room0 m)") auto
    from assms(1,2) have "i = 0 \<or> i = 1" by linarith
    then show ?thesis using ab by (auto simp add: removeAt_def)
  qed
  have "selectCard0 i m = Inr (dealRoom0 ((discard0 (room0 m ! nat (1 - i)) (m2\<lparr>room0 := [room0 m ! nat (1 - i)]\<rparr>))\<lparr>room0 := []\<rparr>))"
    unfolding selectCard0_def Let_def m2_def [symmetric]
    using assms f rm by simp
  then show ?thesis
    using f by (simp add: dealRoom0_eq discard0_def)
qed

text \<open>
  Claim C9, as stated, fails on \<^verbatim>\<open>main.go\<close>, whose \<^verbatim>\<open>selectCard\<close> discards the
  remaining card on the third pick, as its comment says. From the unshuffled deck the
  room is Club 2, 3, 4, 5; after two picks it is Club 4, Club 5; the third pick fights
  Club 4 and discards Club 5, and the next room is Club 6, 7, 8, 9.
\<close>

theorem selectCard0_discards_last_card:
  "map_sum id room0 (run0 [0, 0] (initialModel0 createDeck0))
     = Inr [\<lparr>Suit0 = ''Club'', Value0 = 4, Type0 = ''Monster''\<rparr>,
            \<lparr>Suit0 = ''Club'', Value0 = 5, Type0 = ''Monster''\<rparr>]
   \<and> map_sum id room0 (run0 [0, 0, 0] (initialModel0 createDeck0))
     = Inr [\<lparr>Suit0 = ''Club'', Value0 = 6, Type0 = ''Monster''\<rparr>,
            \<lparr>Suit0 = ''Club'', Value0 = 7, Type0 = ''Monster''\<rparr>,
            \<lparr>Suit0 = ''Club'', Value0 = 8, Type0 = ''Monster''\<rparr>,
            \<lparr>Suit0 = ''Club'', Value0 = 9, Type0 = ''Monster''\<rparr>]
   \<and> map_sum id discardPile0 (run0 [0, 0, 0] (initialModel0 createDeck0))
     = Inr [\<lparr>Suit0 = ''Club'', Value0 = 2, Type0 = ''Monster''\<rparr>,
            \<lparr>Suit0 = ''Club'', Value0 = 3, Type0 = ''Monster''\<rparr>,
            \<lparr>Suit0 = ''Club'', Value0 = 4, Type0 = ''Monster''\<rparr>,
            \<lparr>Suit0 = ''Club'', Value0 = 5, Type0 = ''Monster''\<rparr>]"
  by code_simp

text \<open>
  Claim C9, amended. With the fight-style choice, \<open>dealRoom\<close> keeps the room's cards in
  front, moves cards from the front of the dungeon behind them until the room holds 4 or
  the dungeon is empty, and discards nothing; a fight resolved in a room of two cards
  discards the monster only, and the other card is the first card of the refilled room.
  In \<^verbatim>\<open>main.go\<close> the third pick of a room of two cards discards the other card last, and
  the next room is the first 4 cards of the dungeon.
\<close>

theorem refill_keeps_last_card:
  "room (dealRoom m) = room m @ take (4 - length (room m)) (dungeon m)
   \<and> dungeon (dealRoom m) = drop (4 - length (room m)) (dungeon m)
   \<and> discardPile (dealRoom m) = discardPile m
   \<and> (0 \<le> selectedCard m \<and> selectedCard m < 2 \<and> length (room m) = 2 \<longrightarrow>
        (\<exists>m'. finishFight m = Inr m'
           \<and> room m' = room m ! nat (1 - selectedCard m) # take 3 (dungeon m)
           \<and> dungeon m' = drop 3 (dungeon m)
           \<and> discardPile m' = discardPile m @ [room m ! nat (selectedCard m)]))
   \<and> (0 \<le> i \<and> i < 2 \<and> length (room0 m0) = 2 \<and> cardsChosen0 m0 = 2 \<longrightarrow>
        (\<exists>m'. selectCard0 i m0 = Inr m'
           \<and> room0 m' = take 4 (dungeon0 m0) \<and> dungeon0 m' = drop 4 (dungeon0 m0)
           \<and> discardPile0 m' \<noteq> [] \<and> last (discardPile0 m') = room0 m0 ! nat (1 - i)))"
proof -
  have deal: "room (dealRoom m) = room m @ take (4 - length (room m)) (dungeon m)
      \<and> dungeon (dealRoom m) = drop (4 - length (room m)) (dungeon m)
      \<and> discardPile (dealRoom m) = discardPile m"
    by (simp add: dealRoom_eq)
  have fight: "\<exists>m'. finishFight m = Inr m'
           \<and> room m' = room m ! nat (1 - selectedCard m) # take 3 (dungeon m)
           \<and> dungeon m' = drop 3 (dungeon m)
           \<and> discardPile m' = discardPile m @ [room m ! nat (selectedCard m)]"
    if v: "0 \<le> selectedCard m" "selectedCard m < 2" and l: "length (room m) = 2"
  proof -
    from l obtain a b where ab: "room m = [a, b]"
      by (cases "room m"; cases "tl (room m)") auto
    from v have "selectedCard m = 0 \<or> selectedCard m = 1" by linarith
    then have rest: "take (nat (selectedCard m)) (room m) @ drop (nat (selectedCard m + 1)) (room m)
        = [room m ! nat (1 - selectedCard m)]"
      using ab by auto
    from v l have "selectedCard m < int (length (room m))" by simp
    from finishFight_valid [OF v(1) this] l rest show ?thesis
      by (simp add: Let_def dealRoom_eq)
  qed
  from deal fight selectCard0_third [of i m0] show ?thesis by blast
qed

theorem refill_keeps_last_card_witness:
  "0 \<le> selectedCard fightState \<and> selectedCard fightState < 2 \<and> length (room fightState) = 2
   \<and> (\<exists>m'. finishFight fightState = Inr m'
         \<and> room m' = [mkCard ''Heart'' 8 ''Potion'', mkCard ''Club'' 9 ''Monster'']
         \<and> dungeon m' = []
         \<and> discardPile m' = [mkCard ''Spade'' 10 ''Monster''])
   \<and> length (room0 lastPickState0) = 2 \<and> cardsChosen0 lastPickState0 = 2
   \<and> (\<exists>m'. selectCard0 0 lastPickState0 = Inr m'
         \<and> room0 m' = [\<lparr>Suit0 = ''Heart'', Value0 = 2, Type0 = ''Potion''\<rparr>]
         \<and> dungeon0 m' = []
         \<and> last (discardPile0 m') = \<lparr>Suit0 = ''Club'', Value0 = 5, Type0 = ''Monster''\<rparr>)"
  using refill_keeps_last_card [where m = fightState and i = 0 and ?m0.0 = lastPickState0]
  by (auto simp add: fightState_def lastPickState0_def)

end
